theory Spec2Isabelle
  imports Complex_Main
begin

section \<open>Data model\<close>

text \<open>
  The development embeds \<^verbatim>\<open>data.py\<close> (class \<^verbatim>\<open>HistoricCSVDataHandler\<close>) and the
  strategy part of \<^verbatim>\<open>aapl_csv_data.py\<close> (class \<^verbatim>\<open>BSStrategy\<close>).

  Conventions of the embedding:
  \<^item> a price is a \<^typ>\<open>real\<close>: Python's floats are idealised, so rounding, infinities
    and NaN are outside the model;
  \<^item> a timestamp is an \<^typ>\<open>int\<close>, the nanoseconds since the epoch that a pandas
    \<^verbatim>\<open>Timestamp\<close> stores;
  \<^item> a Python dictionary is a map, and a missing key is the error \<open>KeyError\<close>;
  \<^item> an exception is the left injection of a sum; it ends the call that raised it.
\<close>

type_synonym symbol = string

datatype error = KeyError | IndexError | ValueError

text \<open>One chunk of the CSV reader (\<^verbatim>\<open>chunksize = 1\<close>): a one-row frame with the index
  \<^verbatim>\<open>datetime\<close> and the column \<^verbatim>\<open>tick\<close>.\<close>

record tick =
  tick_datetime :: int
  tick_value :: real

text \<open>One row of \<^verbatim>\<open>.ohlc()\<close>: the label of the window and the four columns.\<close>

record bar =
  bar_datetime :: int
  bar_open :: real
  bar_high :: real
  bar_low :: real
  bar_close :: real

datatype val_type = COL_open | COL_high | COL_low | COL_close

datatype sig_dir = SIG_LONG | SIG_SHORT | SIG_EXIT

text \<open>\<^verbatim>\<open>SignalEvent(strategy_id, symbol, datetime, signal_type, strength)\<close>; the
  \<^verbatim>\<open>datetime\<close> argument is the wall clock \<^verbatim>\<open>dt.utcnow()\<close> and is left out.\<close>

datatype event = MarketEvent | SignalEvent nat symbol sig_dir real

record handler =
  symbol_list :: "symbol list"
  symbol_data :: "symbol \<rightharpoonup> tick list"
  latest_symbol_data :: "symbol \<rightharpoonup> tick list"
  latest_bars_data :: "symbol \<rightharpoonup> bar list"
  current_bar :: "symbol \<rightharpoonup> tick list"
  downsamp :: "symbol \<rightharpoonup> (int \<times> tick list) list option"
  continue_backtest :: bool
  events :: "event list"

section \<open>The data handler\<close>

text \<open>\<^verbatim>\<open>__init__\<close> with \<^verbatim>\<open>_open_convert_csv_files\<close>. The argument \<open>csv\<close> gives the rows
  of the file \<^verbatim>\<open>'%s.csv' % s\<close> in \<^verbatim>\<open>csv_dir\<close>; the reader of a symbol is the list of rows
  not yet read. Opening and parsing the files is outside the model, and a file is taken to
  hold at least one row (what pandas hands out first for a file without rows is not
  modelled).\<close>

definition HistoricCSVDataHandler_init ::
  "event list \<Rightarrow> (symbol \<Rightarrow> tick list) \<Rightarrow> symbol list \<Rightarrow> handler" where
  "HistoricCSVDataHandler_init evs csv syms =
     \<lparr> symbol_list = syms,
       symbol_data = map_of (map (\<lambda>s. (s, csv s)) syms),
       latest_symbol_data = map_of (map (\<lambda>s. (s, [])) syms),
       latest_bars_data = map_of (map (\<lambda>s. (s, [])) syms),
       current_bar = map_of (map (\<lambda>s. (s, [])) syms),
       downsamp = Map.empty,
       continue_backtest = True,
       events = evs \<rparr>"

text \<open>The five-minute grid of \<^verbatim>\<open>resample("5T", label='left', closed='left')\<close>: the
  window of a timestamp is its quotient by \<open>300 \<sqdot> 10\<^sup>9\<close> nanoseconds.\<close>

definition bin_width :: int where
  "bin_width = 300000000000"

definition bucket :: "int \<Rightarrow> int" where
  "bucket t = t div bin_width"

text \<open>\<^verbatim>\<open>list(frame.resample("5T", ...))\<close>: the frame is put in time order (a stable
  sort), and there is one group for every window from the one of the first row to the one
  of the last, the empty ones included.\<close>

definition resample_5T :: "tick list \<Rightarrow> (int \<times> tick list) list" where
  "resample_5T df =
     (case sort_key tick_datetime df of
        [] \<Rightarrow> []
      | t # ts \<Rightarrow>
          map (\<lambda>b. (b * bin_width, filter (\<lambda>x. bucket (tick_datetime x) = b) (t # ts)))
            [bucket (tick_datetime t) .. bucket (tick_datetime (last (t # ts)))])"

text \<open>\<^verbatim>\<open>group.resample("5T", ...).ohlc().droplevel(0, axis=1)\<close> on the first group, whose
  rows all lie in one window: a single row. The first group of a frame holds the first
  row of the frame, so the group is never empty.\<close>

fun ohlc :: "int \<times> tick list \<Rightarrow> bar" where
  "ohlc (lbl, t # ts) =
     \<lparr> bar_datetime = lbl,
       bar_open = tick_value t,
       bar_high = fold max (map tick_value ts) (tick_value t),
       bar_low = fold min (map tick_value ts) (tick_value t),
       bar_close = tick_value (last (t # ts)) \<rparr>"

text \<open>The body of the \<^verbatim>\<open>for s in self.symbol_list\<close> loop of \<^verbatim>\<open>update_ticks\<close>.
  \<^verbatim>\<open>next(self._get_new_tick(s))\<close> reads the next row of the reader of \<open>s\<close>, or raises
  \<^verbatim>\<open>StopIteration\<close>, which the loop catches.\<close>

definition update_ticks_symbol :: "symbol \<Rightarrow> handler \<Rightarrow> error + handler" where
  "update_ticks_symbol s h =
     (let h1 = h\<lparr>downsamp := (downsamp h)(s \<mapsto> None)\<rparr> in
      case symbol_data h1 s of
        None \<Rightarrow> Inl KeyError
      | Some [] \<Rightarrow> Inr (h1\<lparr>continue_backtest := False\<rparr>)
      | Some (tick # rest) \<Rightarrow>
          (let h2 = h1\<lparr>symbol_data := (symbol_data h1)(s \<mapsto> rest),
                      latest_symbol_data := (latest_symbol_data h1)(s \<mapsto> [tick])\<rparr> in
           case current_bar h2 s of
             None \<Rightarrow> Inl KeyError
           | Some cb \<Rightarrow>
               (let frame = cb @ [tick];
                    ds = resample_5T frame;
                    h3 = h2\<lparr>current_bar := (current_bar h2)(s \<mapsto> frame),
                            downsamp := (downsamp h2)(s \<mapsto> Some ds)\<rparr> in
                if length ds > 1 then
                  (case latest_bars_data h3 s of
                     None \<Rightarrow> Inl KeyError
                   | Some bars \<Rightarrow>
                       Inr (h3\<lparr>latest_bars_data := (latest_bars_data h3)(s \<mapsto> bars @ [ohlc (ds ! 0)]),
                               current_bar := (current_bar h3)(s \<mapsto> [last frame])\<rparr>))
                else Inr h3)))"

fun update_ticks_loop :: "symbol list \<Rightarrow> handler \<Rightarrow> error + handler" where
  "update_ticks_loop [] h = Inr h"
| "update_ticks_loop (s # ss) h =
     (case update_ticks_symbol s h of
        Inl e \<Rightarrow> Inl e
      | Inr h' \<Rightarrow> update_ticks_loop ss h')"

definition update_ticks :: "handler \<Rightarrow> error + handler" where
  "update_ticks h =
     (case update_ticks_loop (symbol_list h) h of
        Inl e \<Rightarrow> Inl e
      | Inr h' \<Rightarrow> Inr (h'\<lparr>events := events h' @ [MarketEvent]\<rparr>))"

text \<open>The slice \<^verbatim>\<open>bars_list[-N:]\<close>: the last \<open>N\<close> elements for a positive \<open>N\<close> (all of
  them when there are fewer), the whole list for \<open>N = 0\<close>, and the list without its first
  \<open>-N\<close> elements for a negative \<open>N\<close>.\<close>

definition slice_last :: "int \<Rightarrow> 'a list \<Rightarrow> 'a list" where
  "slice_last N xs = (if 0 < N then drop (length xs - nat N) xs else drop (nat (- N)) xs)"

definition get_latest_bars :: "handler \<Rightarrow> symbol \<Rightarrow> int \<Rightarrow> error + bar list" where
  "get_latest_bars h s N =
     (case latest_bars_data h s of
        None \<Rightarrow> Inl KeyError
      | Some bars_list \<Rightarrow> Inr (slice_last N bars_list))"

definition get_latest_tick_datetime :: "handler \<Rightarrow> symbol \<Rightarrow> error + int" where
  "get_latest_tick_datetime h s =
     (case latest_symbol_data h s of
        None \<Rightarrow> Inl KeyError
      | Some [] \<Rightarrow> Inl IndexError
      | Some (t # ts) \<Rightarrow> Inr (tick_datetime (last (t # ts))))"

text \<open>\<^verbatim>\<open>get_latest_tick_value(symbol, "tick")\<close>: the strategy reads the only column of a
  tick.\<close>

definition get_latest_tick_value :: "handler \<Rightarrow> symbol \<Rightarrow> error + real" where
  "get_latest_tick_value h s =
     (case latest_symbol_data h s of
        None \<Rightarrow> Inl KeyError
      | Some [] \<Rightarrow> Inl IndexError
      | Some (t # ts) \<Rightarrow> Inr (tick_value (last (t # ts))))"

fun bar_column :: "val_type \<Rightarrow> bar \<Rightarrow> real" where
  "bar_column COL_open b = bar_open b"
| "bar_column COL_high b = bar_high b"
| "bar_column COL_low b = bar_low b"
| "bar_column COL_close b = bar_close b"

definition get_latest_bars_values :: "handler \<Rightarrow> symbol \<Rightarrow> val_type \<Rightarrow> int \<Rightarrow> error + real list" where
  "get_latest_bars_values h s vt N =
     (case get_latest_bars h s N of
        Inl e \<Rightarrow> Inl e
      | Inr bars_list \<Rightarrow> Inr (map (bar_column vt) bars_list))"

section \<open>The strategy\<close>

datatype phase = OUT | LONG | SHORT

text \<open>The fields of \<^verbatim>\<open>BSStrategy\<close>. \<^verbatim>\<open>bought[s]\<close> is one of the strings
  \<^verbatim>\<open>'OUT'\<close>, \<^verbatim>\<open>'LONG'\<close>, \<^verbatim>\<open>'SHORT'\<close>; \<^verbatim>\<open>omm_price[s]\<close> is the three-element list
  of the entry price, the running maximum and the running minimum. The handler
  \<^verbatim>\<open>self.bars\<close> and the queue \<^verbatim>\<open>self.events\<close> are passed to the methods that use them.\<close>

record strategy =
  strat_symbol_list :: "symbol list"
  short_window :: int
  mid_window :: int
  long_window :: int
  use_window :: int
  min_diff :: real
  min_deep :: real
  plus :: real
  sl :: real
  tp :: real
  ts_step :: real
  bought :: "symbol \<rightharpoonup> phase"
  omm_price :: "symbol \<rightharpoonup> real \<times> real \<times> real"

definition calculate_initial_bought :: "symbol list \<Rightarrow> (symbol \<rightharpoonup> phase)" where
  "calculate_initial_bought syms = map_of (map (\<lambda>s. (s, OUT)) syms)"

text \<open>\<^verbatim>\<open>BSStrategy.__init__\<close>. No statement of the constructor raises: the result is
  always a strategy.\<close>

definition BSStrategy_init ::
  "handler \<Rightarrow> int \<Rightarrow> int \<Rightarrow> int \<Rightarrow> real \<Rightarrow> real \<Rightarrow> real \<Rightarrow> real \<Rightarrow> real \<Rightarrow> real
     \<Rightarrow> error + strategy" where
  "BSStrategy_init bars short_w mid_w long_w min_diff_arg min_deep_arg plus_arg sl_arg tp_arg ts_step_arg =
     Inr \<lparr> strat_symbol_list = symbol_list bars,
           short_window = short_w,
           mid_window = mid_w,
           long_window = long_w,
           use_window = 4 * long_w,
           min_diff = min_diff_arg * 0.0001,
           min_deep = min_deep_arg * 0.0001,
           plus = plus_arg * 0.0001,
           sl = sl_arg * 0.0001,
           tp = tp_arg * 0.0001,
           ts_step = ts_step_arg * 0.0001,
           bought = calculate_initial_bought (symbol_list bars),
           omm_price = map_of (map (\<lambda>s. (s, (0, 0, 0))) (symbol_list bars)) \<rparr>"

definition calculate_min_max_price :: "strategy \<Rightarrow> symbol \<Rightarrow> real \<Rightarrow> error + strategy" where
  "calculate_min_max_price st s tick_price =
     (case omm_price st s of
        None \<Rightarrow> Inl KeyError
      | Some (po, mx, mn) \<Rightarrow>
          if po \<noteq> 0
          then Inr (st\<lparr>omm_price := (omm_price st)(s \<mapsto> (po, max mx tick_price, min mn tick_price))\<rparr>)
          else Inr st)"

text \<open>\<^verbatim>\<open>series.ewm(span=span, adjust=False).mean().iloc[-1]\<close>: pandas refuses a span
  below 1; the mean starts at the first value and then follows
  \<open>y\<^sub>i = (1 - \<alpha>) y\<^sub>i\<^sub>-\<^sub>1 + \<alpha> x\<^sub>i\<close> with \<open>\<alpha> = 2 / (span + 1)\<close>; the last element of an
  empty series does not exist.\<close>

definition ewm_step :: "real \<Rightarrow> real \<Rightarrow> real \<Rightarrow> real" where
  "ewm_step \<alpha> y x = (1 - \<alpha>) * y + \<alpha> * x"

definition ewm_mean_last :: "int \<Rightarrow> real list \<Rightarrow> error + real" where
  "ewm_mean_last spn xs =
     (if spn < 1 then Inl ValueError
      else case xs of
             [] \<Rightarrow> Inl IndexError
           | x # rest \<Rightarrow> Inr (foldl (ewm_step (2 / (real_of_int spn + 1))) x rest))"

text \<open>The \<^verbatim>\<open>if\<close>/\<^verbatim>\<open>elif\<close> chain of \<^verbatim>\<open>calculate_signals\<close>, in the order of the source.
  \<open>(po_price, max_price, min_price)\<close> are the anchors read after
  \<^verbatim>\<open>_calculate_min_max_price\<close>.\<close>

fun signal_chain ::
  "symbol \<Rightarrow> real \<Rightarrow> real \<Rightarrow> real \<Rightarrow> real \<Rightarrow> int \<Rightarrow> int \<Rightarrow> real \<Rightarrow> real \<times> real \<times> real
     \<Rightarrow> strategy \<times> event list \<Rightarrow> error + strategy \<times> event list" where
  "signal_chain s last_bar_price short_ema mid_ema long_ema hour_ld hour_et tick_price
       (po_price, max_price, min_price) (st, q) =
     (case bought st s of
        None \<Rightarrow> Inl KeyError
      | Some ph \<Rightarrow>
          if short_ema > last_bar_price \<and> last_bar_price > mid_ema \<and> mid_ema > long_ema
             \<and> ph = OUT \<and> hour_ld \<ge> 8 \<and> hour_et < 17
             \<and> short_ema - last_bar_price \<ge> min_deep st
             \<and> short_ema - mid_ema \<ge> min_diff st
             \<and> mid_ema - long_ema \<ge> short_ema - mid_ema + plus st
          then Inr (st\<lparr>omm_price := (omm_price st)(s \<mapsto> (tick_price, tick_price, tick_price)),
                       bought := (bought st)(s \<mapsto> LONG)\<rparr>,
                    q @ [SignalEvent 1 s SIG_LONG 1])
          else if short_ema < last_bar_price \<and> last_bar_price < mid_ema \<and> mid_ema < long_ema
             \<and> ph = OUT \<and> hour_ld \<ge> 8 \<and> hour_et < 17
             \<and> last_bar_price - short_ema \<ge> min_deep st
             \<and> mid_ema - short_ema \<ge> min_diff st
             \<and> long_ema - mid_ema \<ge> mid_ema - short_ema + plus st
          then Inr (st\<lparr>bought := (bought st)(s \<mapsto> SHORT),
                       omm_price := (omm_price st)(s \<mapsto> (tick_price, tick_price, tick_price))\<rparr>,
                    q @ [SignalEvent 1 s SIG_SHORT 1])
          else if ph = LONG
             \<and> (tick_price \<ge> po_price + tp st
                \<or> (max_price - po_price \<ge> ts_step st \<and> tick_price \<le> po_price)
                \<or> (max_price - po_price < ts_step st \<and> tick_price \<le> po_price - sl st))
          then Inr (st\<lparr>omm_price := (omm_price st)(s \<mapsto> (0, 0, 0)),
                       bought := (bought st)(s \<mapsto> OUT)\<rparr>,
                    q @ [SignalEvent 1 s SIG_EXIT 1])
          else if ph = SHORT
             \<and> (tick_price \<le> po_price - tp st
                \<or> (po_price - min_price \<ge> ts_step st \<and> tick_price \<ge> po_price)
                \<or> (po_price - min_price < ts_step st \<and> tick_price \<ge> po_price + sl st))
          then Inr (st\<lparr>omm_price := (omm_price st)(s \<mapsto> (0, 0, 0)),
                       bought := (bought st)(s \<mapsto> OUT)\<rparr>,
                    q @ [SignalEvent 1 s SIG_EXIT 1])
          else Inr (st, q))"

text \<open>The part of the loop body of \<^verbatim>\<open>calculate_signals\<close> that follows the reads from
  the handler: the anchors are maintained first, then the length of the window is
  tested, then the last close, the three means and the two local hours are computed.
  \<open>hour_et\<close> and \<open>hour_ld\<close> give the local hour of a UTC timestamp in
  \<^verbatim>\<open>America/New_York\<close> and \<^verbatim>\<open>Europe/London\<close>; the time-zone database is a parameter.\<close>

fun signal_step ::
  "(int \<Rightarrow> int) \<Rightarrow> (int \<Rightarrow> int) \<Rightarrow> symbol \<Rightarrow> real list \<Rightarrow> int \<Rightarrow> real
     \<Rightarrow> strategy \<times> event list \<Rightarrow> error + strategy \<times> event list" where
  "signal_step hour_et hour_ld s bars_value tick_date tick_price (st, q) =
     (case calculate_min_max_price st s tick_price of
        Inl e \<Rightarrow> Inl e
      | Inr st1 \<Rightarrow>
          (case omm_price st1 s of
             None \<Rightarrow> Inl KeyError
           | Some omm \<Rightarrow>
               if int (length bars_value) = use_window st1 then
                 (case bars_value of
                    [] \<Rightarrow> Inl IndexError
                  | _ # _ \<Rightarrow>
                      (case ewm_mean_last (short_window st1) bars_value of
                         Inl e \<Rightarrow> Inl e
                       | Inr short_ema \<Rightarrow>
                      (case ewm_mean_last (mid_window st1) bars_value of
                         Inl e \<Rightarrow> Inl e
                       | Inr mid_ema \<Rightarrow>
                      (case ewm_mean_last (long_window st1) bars_value of
                         Inl e \<Rightarrow> Inl e
                       | Inr long_ema \<Rightarrow>
                           signal_chain s (last bars_value) short_ema mid_ema long_ema
                             (hour_ld tick_date) (hour_et tick_date) tick_price omm (st1, q)))))
               else Inr (st1, q)))"

text \<open>The loop body of \<^verbatim>\<open>calculate_signals\<close> for the symbol \<open>s\<close>.\<close>

definition calculate_signals_symbol ::
  "(int \<Rightarrow> int) \<Rightarrow> (int \<Rightarrow> int) \<Rightarrow> handler \<Rightarrow> symbol
     \<Rightarrow> strategy \<times> event list \<Rightarrow> error + strategy \<times> event list" where
  "calculate_signals_symbol hour_et hour_ld bars s stq =
     (case get_latest_bars_values bars s COL_close (use_window (fst stq)) of
        Inl e \<Rightarrow> Inl e
      | Inr bars_value \<Rightarrow>
          (case get_latest_tick_datetime bars s of
             Inl e \<Rightarrow> Inl e
           | Inr tick_date \<Rightarrow>
               (case get_latest_tick_value bars s of
                  Inl e \<Rightarrow> Inl e
                | Inr tick_price \<Rightarrow>
                    signal_step hour_et hour_ld s bars_value tick_date tick_price stq)))"

fun calculate_signals_loop ::
  "(int \<Rightarrow> int) \<Rightarrow> (int \<Rightarrow> int) \<Rightarrow> handler \<Rightarrow> symbol list
     \<Rightarrow> strategy \<times> event list \<Rightarrow> error + strategy \<times> event list" where
  "calculate_signals_loop hour_et hour_ld bars [] stq = Inr stq"
| "calculate_signals_loop hour_et hour_ld bars (s # ss) stq =
     (case calculate_signals_symbol hour_et hour_ld bars s stq of
        Inl e \<Rightarrow> Inl e
      | Inr stq' \<Rightarrow> calculate_signals_loop hour_et hour_ld bars ss stq')"

text \<open>\<^verbatim>\<open>calculate_signals(event)\<close>: only an event of type \<^verbatim>\<open>'MARKET'\<close> is acted on.\<close>

definition calculate_signals ::
  "(int \<Rightarrow> int) \<Rightarrow> (int \<Rightarrow> int) \<Rightarrow> handler \<Rightarrow> event
     \<Rightarrow> strategy \<times> event list \<Rightarrow> error + strategy \<times> event list" where
  "calculate_signals hour_et hour_ld bars ev stq =
     (case ev of
        MarketEvent \<Rightarrow> calculate_signals_loop hour_et hour_ld bars (strat_symbol_list (fst stq)) stq
      | SignalEvent _ _ _ _ \<Rightarrow> Inr stq)"

declare signal_chain.simps [simp del]
declare signal_step.simps [simp del]

section \<open>Auxiliary definitions\<close>


text \<open>The latest tick of a symbol after its reader, holding the rows \<open>src\<close>, has been
  asked \<open>n\<close> times: the last row that was read, or the old entry when none was.\<close>

definition read_rows :: "nat \<Rightarrow> tick list \<Rightarrow> tick list option \<Rightarrow> tick list option" where
  "read_rows n src old = (if min n (length src) = 0 then old else Some [src ! (min n (length src) - 1)])"

text \<open>What the \<^verbatim>\<open>else\<close> branch of \<open>update_ticks_symbol\<close> does to the open frame and the
  history of the symbol when it reads the row \<open>t\<close>, and its iteration over the rows of a
  reader; \<open>sym_view\<close> collects the reader, the open frame and the history of a symbol.\<close>

fun feed1 :: "tick list \<times> bar list \<Rightarrow> tick \<Rightarrow> tick list \<times> bar list" where
  "feed1 (cb, bars) t =
     (if 1 < length (resample_5T (cb @ [t]))
      then ([t], bars @ [ohlc (resample_5T (cb @ [t]) ! 0)])
      else (cb @ [t], bars))"

fun feed_rows :: "nat \<Rightarrow> tick list \<times> tick list \<times> bar list \<Rightarrow> tick list \<times> tick list \<times> bar list" where
  "feed_rows 0 v = v"
| "feed_rows (Suc n) ([], cbb) = ([], cbb)"
| "feed_rows (Suc n) (t # rest, cbb) = feed_rows n (rest, feed1 cbb t)"

definition sym_view :: "handler \<Rightarrow> symbol \<Rightarrow> (tick list \<times> tick list \<times> bar list) option" where
  "sym_view h s =
     (case symbol_data h s of
        None \<Rightarrow> None
      | Some src \<Rightarrow>
          (case current_bar h s of
             None \<Rightarrow> None
           | Some cb \<Rightarrow>
               (case latest_bars_data h s of
                  None \<Rightarrow> None
                | Some bars \<Rightarrow> Some (src, cb, bars))))"

text \<open>\<open>n\<close> update steps in a row; an exception ends the run.\<close>

fun update_ticks_n :: "nat \<Rightarrow> handler \<Rightarrow> error + handler" where
  "update_ticks_n 0 h = Inr h"
| "update_ticks_n (Suc n) h =
     (case update_ticks h of
        Inl e \<Rightarrow> Inl e
      | Inr h' \<Rightarrow> update_ticks_n n h')"

text \<open>The bars a tick sequence should give, in the words of the specification: the
  ticks of the window \<open>b\<close>; the bar of a window, with the first price as open, the largest
  as high, the smallest as low and the last as close; and one bar for every window of the
  sequence but the last one, which is still filling.\<close>

definition window_ticks :: "tick list \<Rightarrow> int \<Rightarrow> tick list" where
  "window_ticks ts b = filter (\<lambda>t. bucket (tick_datetime t) = b) ts"

definition window_bar :: "int \<Rightarrow> tick list \<Rightarrow> bar" where
  "window_bar b g =
     \<lparr> bar_datetime = b * bin_width,
       bar_open = tick_value (hd g),
       bar_high = Max (set (map tick_value g)),
       bar_low = Min (set (map tick_value g)),
       bar_close = tick_value (last g) \<rparr>"

definition bars_of :: "tick list \<Rightarrow> bar list" where
  "bars_of ts =
     map (\<lambda>b. window_bar b (window_ticks ts b))
       (butlast (remdups_adj (map (\<lambda>t. bucket (tick_datetime t)) ts)))"

text \<open>The windows of a tick sequence, in the order in which they begin.\<close>

definition bks :: "tick list \<Rightarrow> int list" where
  "bks ts = remdups_adj (map (\<lambda>t. bucket (tick_datetime t)) ts)"

text \<open>Two sample readers: four ticks in three windows, and six ticks in six windows.\<close>

definition four_ticks :: "tick list" where
  "four_ticks =
     [\<lparr>tick_datetime = 0, tick_value = 1\<rparr>,
      \<lparr>tick_datetime = 100000000000, tick_value = 3\<rparr>,
      \<lparr>tick_datetime = 300000000000, tick_value = 2\<rparr>,
      \<lparr>tick_datetime = 700000000000, tick_value = 5\<rparr>]"


text \<open>Sample time zones for the scenarios: on a winter day London is on UTC and New York
  five hours behind.\<close>

definition hour_utc :: "int \<Rightarrow> int" where
  "hour_utc t = (t div 3600000000000) mod 24"

definition hour_utc_minus_5 :: "int \<Rightarrow> int" where
  "hour_utc_minus_5 t = (t div 3600000000000 - 5) mod 24"

text \<open>The scenarios of the specification. The window of sixteen closes has the means
  1.0010 (span 2), 1.0000 (span 3) and 0.9990 (span 4) and ends with 1.0005; the handler
  holds that window and one latest tick; the strategy is the one \<^verbatim>\<open>BSStrategy(bars, events,
  2, 3, 4, 1, 0, 0, 5, 10, 5)\<close> builds, in the given phase and with the given anchors.\<close>

definition scenario_closes :: "real list" where
  "scenario_closes = replicate 14 0.992 @ [1.007, 1.0005]"

definition scenario_handler :: "int \<Rightarrow> real \<Rightarrow> handler" where
  "scenario_handler tick_date tick_price =
     \<lparr> symbol_list = [''EURUSD''],
       symbol_data = [''EURUSD'' \<mapsto> []],
       latest_symbol_data = [''EURUSD'' \<mapsto> [\<lparr>tick_datetime = tick_date, tick_value = tick_price\<rparr>]],
       latest_bars_data = [''EURUSD'' \<mapsto>
          map (\<lambda>c. \<lparr>bar_datetime = 0, bar_open = c, bar_high = c, bar_low = c, bar_close = c\<rparr>)
            scenario_closes],
       current_bar = [''EURUSD'' \<mapsto> [\<lparr>tick_datetime = tick_date, tick_value = tick_price\<rparr>]],
       downsamp = [''EURUSD'' \<mapsto> None],
       continue_backtest = True,
       events = [] \<rparr>"

definition scenario_strategy :: "phase \<Rightarrow> real \<times> real \<times> real \<Rightarrow> strategy" where
  "scenario_strategy ph anchors =
     \<lparr> strat_symbol_list = [''EURUSD''],
       short_window = 2, mid_window = 3, long_window = 4, use_window = 16,
       min_diff = 1 * 0.0001, min_deep = 0 * 0.0001, plus = 0 * 0.0001,
       sl = 5 * 0.0001, tp = 10 * 0.0001, ts_step = 5 * 0.0001,
       bought = [''EURUSD'' \<mapsto> ph],
       omm_price = [''EURUSD'' \<mapsto> anchors] \<rparr>"

text \<open>The four conditions of the \<^verbatim>\<open>if\<close>/\<^verbatim>\<open>elif\<close> chain, named.\<close>

definition long_entry_cond :: "strategy \<Rightarrow> phase \<Rightarrow> real \<Rightarrow> real \<Rightarrow> real \<Rightarrow> real \<Rightarrow> int \<Rightarrow> int \<Rightarrow> bool" where
  "long_entry_cond st ph last_bar_price short_ema mid_ema long_ema hour_ld hour_et \<longleftrightarrow>
     short_ema > last_bar_price \<and> last_bar_price > mid_ema \<and> mid_ema > long_ema
     \<and> ph = OUT \<and> hour_ld \<ge> 8 \<and> hour_et < 17
     \<and> short_ema - last_bar_price \<ge> min_deep st
     \<and> short_ema - mid_ema \<ge> min_diff st
     \<and> mid_ema - long_ema \<ge> short_ema - mid_ema + plus st"

definition short_entry_cond :: "strategy \<Rightarrow> phase \<Rightarrow> real \<Rightarrow> real \<Rightarrow> real \<Rightarrow> real \<Rightarrow> int \<Rightarrow> int \<Rightarrow> bool" where
  "short_entry_cond st ph last_bar_price short_ema mid_ema long_ema hour_ld hour_et \<longleftrightarrow>
     short_ema < last_bar_price \<and> last_bar_price < mid_ema \<and> mid_ema < long_ema
     \<and> ph = OUT \<and> hour_ld \<ge> 8 \<and> hour_et < 17
     \<and> last_bar_price - short_ema \<ge> min_deep st
     \<and> mid_ema - short_ema \<ge> min_diff st
     \<and> long_ema - mid_ema \<ge> mid_ema - short_ema + plus st"

definition long_exit_cond :: "strategy \<Rightarrow> phase \<Rightarrow> real \<Rightarrow> real \<Rightarrow> real \<Rightarrow> bool" where
  "long_exit_cond st ph tick_price po_price max_price \<longleftrightarrow>
     ph = LONG
     \<and> (tick_price \<ge> po_price + tp st
        \<or> (max_price - po_price \<ge> ts_step st \<and> tick_price \<le> po_price)
        \<or> (max_price - po_price < ts_step st \<and> tick_price \<le> po_price - sl st))"

definition short_exit_cond :: "strategy \<Rightarrow> phase \<Rightarrow> real \<Rightarrow> real \<Rightarrow> real \<Rightarrow> bool" where
  "short_exit_cond st ph tick_price po_price min_price \<longleftrightarrow>
     ph = SHORT
     \<and> (tick_price \<le> po_price - tp st
        \<or> (po_price - min_price \<ge> ts_step st \<and> tick_price \<ge> po_price)
        \<or> (po_price - min_price < ts_step st \<and> tick_price \<ge> po_price + sl st))"

text \<open>A state of handler and strategy that a run can be in. \<open>window_ready\<close>: the three
  spans are at least 1, the history of the symbol holds at least \<open>use_window > 0\<close> bars
  and a tick of the symbol has been read. \<open>consistent\<close>: every symbol of the list has a
  phase; a symbol that is OUT has the anchors \<open>(0, 0, 0)\<close>; a symbol that is not OUT has
  anchors and a ready window (it was entered on a full window, and the history only grows).\<close>

definition window_ready :: "handler \<Rightarrow> strategy \<Rightarrow> symbol \<Rightarrow> bool" where
  "window_ready bars st s \<longleftrightarrow>
     1 \<le> short_window st \<and> 1 \<le> mid_window st \<and> 1 \<le> long_window st \<and> 0 < use_window st
     \<and> (\<exists>bl t ts. latest_bars_data bars s = Some bl \<and> use_window st \<le> int (length bl)
                   \<and> latest_symbol_data bars s = Some (t # ts))"

definition consistent :: "handler \<Rightarrow> strategy \<Rightarrow> bool" where
  "consistent bars st \<longleftrightarrow>
     (\<forall>s \<in> set (strat_symbol_list st). bought st s \<noteq> None)
     \<and> (\<forall>s. bought st s = Some OUT \<longrightarrow> omm_price st s = Some (0, 0, 0))
     \<and> (\<forall>s ph. bought st s = Some ph \<and> ph \<noteq> OUT \<longrightarrow> omm_price st s \<noteq> None \<and> window_ready bars st s)"


section \<open>The update step of the data handler\<close>

lemma map_of_const_keys:
  "map_of (map (\<lambda>s. (s, f s)) syms) s = (if s \<in> set syms then Some (f s) else None)"
  by (induction syms) auto


lemma update_ticks_symbol_exhausted:
  "symbol_data h s = Some [] \<Longrightarrow>
   update_ticks_symbol s h = Inr (h\<lparr>downsamp := (downsamp h)(s \<mapsto> None), continue_backtest := False\<rparr>)"
  by (simp add: update_ticks_symbol_def)

lemma update_ticks_symbol_tick:
  "symbol_data h s = Some (t # rest) \<Longrightarrow> current_bar h s = Some cb \<Longrightarrow>
   latest_bars_data h s = Some bars \<Longrightarrow>
   update_ticks_symbol s h =
     Inr (h\<lparr>downsamp := (downsamp h)(s \<mapsto> Some (resample_5T (cb @ [t]))),
            symbol_data := (symbol_data h)(s \<mapsto> rest),
            latest_symbol_data := (latest_symbol_data h)(s \<mapsto> [t]),
            current_bar := (current_bar h)(s \<mapsto>
               if 1 < length (resample_5T (cb @ [t])) then [t] else cb @ [t]),
            latest_bars_data := (latest_bars_data h)(s \<mapsto>
               if 1 < length (resample_5T (cb @ [t])) then bars @ [ohlc (resample_5T (cb @ [t]) ! 0)]
               else bars)\<rparr>)"
  by (simp add: update_ticks_symbol_def Let_def map_upd_triv)


lemma read_rows_0 [simp]: "read_rows 0 src old = old"
  by (simp add: read_rows_def)

lemma read_rows_Nil [simp]: "read_rows n [] old = old"
  by (simp add: read_rows_def)

lemma read_rows_Suc_Cons [simp]: "read_rows (Suc n) (t # rest) old = read_rows n rest (Some [t])"
  by (cases n; cases rest) (auto simp: read_rows_def min_def)




section \<open>Bars from ticks\<close>

lemma sym_view_Some:
  "sym_view h s = Some (src, cb, bars) \<longleftrightarrow>
     symbol_data h s = Some src \<and> current_bar h s = Some cb \<and> latest_bars_data h s = Some bars"
  by (auto simp: sym_view_def split: option.splits)


lemma feed_rows_Nil [simp]: "feed_rows n ([], cbb) = ([], cbb)"
  by (cases n) simp_all

lemma feed_rows_add: "feed_rows (m + n) v = feed_rows n (feed_rows m v)"
proof (induction m v rule: feed_rows.induct)
  case (1 v)
  show ?case by simp
next
  case (2 k cbb)
  show ?case by simp
next
  case (3 k t rest cbb)
  then show ?case by simp
qed

lemma update_ticks_symbol_view:
  assumes "sym_view h s = Some v"
  shows "\<exists>h'. update_ticks_symbol s h = Inr h'
           \<and> symbol_list h' = symbol_list h \<and> events h' = events h
           \<and> sym_view h' s = Some (feed_rows 1 v)
           \<and> (\<forall>s'. s' \<noteq> s \<longrightarrow> sym_view h' s' = sym_view h s')"
proof -
  obtain src cb bars where v: "v = (src, cb, bars)" by (cases v)
  with assms have c: "symbol_data h s = Some src" "current_bar h s = Some cb" "latest_bars_data h s = Some bars"
    by (simp_all add: sym_view_Some)
  show ?thesis
  proof (cases src)
    case Nil
    with c v show ?thesis
      by (auto simp: update_ticks_symbol_exhausted sym_view_def split: option.splits)
  next
    case (Cons t rest)
    with c v show ?thesis
      by (auto simp: update_ticks_symbol_tick sym_view_def split: option.splits)
  qed
qed

lemma update_ticks_loop_view:
  assumes "\<forall>s \<in> set ss. sym_view h s \<noteq> None"
  shows "\<exists>h'. update_ticks_loop ss h = Inr h'
           \<and> symbol_list h' = symbol_list h \<and> events h' = events h
           \<and> (\<forall>s. sym_view h' s = map_option (feed_rows (count_list ss s)) (sym_view h s))"
  using assms
proof (induction ss arbitrary: h)
  case Nil
  then show ?case by (simp add: option.map_ident)
next
  case (Cons a ss)
  from Cons.prems obtain v where v: "sym_view h a = Some v" by auto
  from update_ticks_symbol_view [OF v] obtain h1 where
    h1: "update_ticks_symbol a h = Inr h1" "symbol_list h1 = symbol_list h" "events h1 = events h"
    and va: "sym_view h1 a = Some (feed_rows 1 v)"
    and vo: "\<forall>s'. s' \<noteq> a \<longrightarrow> sym_view h1 s' = sym_view h s'"
    by blast
  have pre: "\<forall>s \<in> set ss. sym_view h1 s \<noteq> None"
    using Cons.prems va vo by (metis list.set_intros(2) option.distinct(1))
  from Cons.IH [OF pre] obtain h' where
    h': "update_ticks_loop ss h1 = Inr h'" "symbol_list h' = symbol_list h1" "events h' = events h1"
    and vs: "\<forall>s. sym_view h' s = map_option (feed_rows (count_list ss s)) (sym_view h1 s)"
    by blast
  have "\<forall>s. sym_view h' s = map_option (feed_rows (count_list (a # ss) s)) (sym_view h s)"
  proof
    fix s
    show "sym_view h' s = map_option (feed_rows (count_list (a # ss) s)) (sym_view h s)"
    proof (cases "s = a")
      case True
      have "feed_rows (count_list ss a) (feed_rows 1 v) = feed_rows (1 + count_list ss a) v"
        by (simp only: feed_rows_add)
      with True vs va v show ?thesis by simp
    next
      case False
      with vs vo show ?thesis by simp
    qed
  qed
  with h1 h' show ?case by simp
qed

lemma update_ticks_view:
  assumes "\<forall>s \<in> set (symbol_list h). sym_view h s \<noteq> None"
  shows "\<exists>h'. update_ticks h = Inr h'
           \<and> symbol_list h' = symbol_list h \<and> events h' = events h @ [MarketEvent]
           \<and> (\<forall>s. sym_view h' s = map_option (feed_rows (count_list (symbol_list h) s)) (sym_view h s))"
proof -
  from update_ticks_loop_view [OF assms] obtain h1 where
    "update_ticks_loop (symbol_list h) h = Inr h1" "symbol_list h1 = symbol_list h" "events h1 = events h"
    "\<forall>s. sym_view h1 s = map_option (feed_rows (count_list (symbol_list h) s)) (sym_view h s)"
    by blast
  then show ?thesis
    by (simp add: update_ticks_def sym_view_def cong: option.case_cong)
qed

lemma update_ticks_n_view:
  assumes "\<forall>s \<in> set (symbol_list h). sym_view h s \<noteq> None"
  shows "\<exists>h'. update_ticks_n n h = Inr h'
           \<and> symbol_list h' = symbol_list h
           \<and> (\<forall>s. sym_view h' s = map_option (feed_rows (n * count_list (symbol_list h) s)) (sym_view h s))"
  using assms
proof (induction n arbitrary: h)
  case 0
  then show ?case by (simp add: option.map_ident)
next
  case (Suc n)
  from update_ticks_view [OF Suc.prems] obtain h1 where
    h1: "update_ticks h = Inr h1" "symbol_list h1 = symbol_list h"
    and v1: "\<forall>s. sym_view h1 s = map_option (feed_rows (count_list (symbol_list h) s)) (sym_view h s)"
    by blast
  have pre: "\<forall>s \<in> set (symbol_list h1). sym_view h1 s \<noteq> None"
    using Suc.prems h1(2) v1 by simp
  from Suc.IH [OF pre] obtain h' where
    h': "update_ticks_n n h1 = Inr h'" "symbol_list h' = symbol_list h1"
    and v': "\<forall>s. sym_view h' s = map_option (feed_rows (n * count_list (symbol_list h1) s)) (sym_view h1 s)"
    by blast
  have "\<forall>s. sym_view h' s = map_option (feed_rows (Suc n * count_list (symbol_list h) s)) (sym_view h s)"
  proof
    fix s
    have "feed_rows (Suc n * count_list (symbol_list h) s) =
          (\<lambda>v. feed_rows (n * count_list (symbol_list h) s) (feed_rows (count_list (symbol_list h) s) v))"
      by (rule ext) (simp add: feed_rows_add)
    then show "sym_view h' s = map_option (feed_rows (Suc n * count_list (symbol_list h) s)) (sym_view h s)"
      using v' v1 h1(2) by (simp add: option.map_comp comp_def)
  qed
  with h1 h' show ?case by simp
qed

lemma feed_rows_foldl: "feed_rows n (src, cbb) = (drop n src, foldl feed1 cbb (take n src))"
proof (induction n "(src, cbb)" arbitrary: src cbb rule: feed_rows.induct)
  case 1
  show ?case by simp
next
  case (2 n)
  show ?case by simp
next
  case (3 n t rest)
  then show ?case by simp
qed

lemma bucket_mono: "a \<le> b \<Longrightarrow> bucket a \<le> bucket b"
  by (simp add: bucket_def bin_width_def zdiv_mono1)

lemma ohlc_window_bar:
  assumes "g \<noteq> []"
  shows "ohlc (b * bin_width, g) = window_bar b g"
proof -
  from assms obtain t ts where g: "g = t # ts" by (cases g) auto
  show ?thesis
    using Max.set_eq_fold [of "tick_value t" "map tick_value ts"]
      Min.set_eq_fold [of "tick_value t" "map tick_value ts"]
    by (simp add: g window_bar_def)
qed

lemma resample_5T_sorted:
  assumes "sorted (map tick_datetime f)" "f \<noteq> []"
  shows "resample_5T f =
           map (\<lambda>b. (b * bin_width, window_ticks f b))
             [bucket (tick_datetime (hd f)) .. bucket (tick_datetime (last f))]"
proof -
  from assms(1) have "sort_key tick_datetime f = f"
    by (rule sort_key_id_if_sorted)
  with assms(2) show ?thesis
    by (cases f) (simp_all add: resample_5T_def window_ticks_def)
qed

lemma feed1_first: "feed1 ([], bars) x = ([x], bars)"
  by (simp add: resample_5T_def)

lemma window_ticks_all:
  "\<forall>t \<in> set f. bucket (tick_datetime t) = b \<Longrightarrow> window_ticks f b = f"
  by (simp add: window_ticks_def)

lemma window_ticks_none:
  "\<forall>t \<in> set f. bucket (tick_datetime t) \<noteq> b \<Longrightarrow> window_ticks f b = []"
  by (simp add: window_ticks_def)

lemma window_ticks_append: "window_ticks (xs @ ys) b = window_ticks xs b @ window_ticks ys b"
  by (simp add: window_ticks_def)

lemma feed1_same:
  assumes "sorted (map tick_datetime (cb @ [x]))" "cb \<noteq> []"
    and "\<forall>t \<in> set cb. bucket (tick_datetime t) = b" "bucket (tick_datetime x) = b"
  shows "feed1 (cb, bars) x = (cb @ [x], bars)"
proof -
  from assms(2,3) have "bucket (tick_datetime (hd (cb @ [x]))) = b" by simp
  with assms(4) have "length (resample_5T (cb @ [x])) = 1"
    by (simp add: resample_5T_sorted [OF assms(1)])
  then show ?thesis by simp
qed

lemma feed1_later:
  assumes "sorted (map tick_datetime (cb @ [x]))" "cb \<noteq> []"
    and "\<forall>t \<in> set cb. bucket (tick_datetime t) = b" "bucket (tick_datetime x) \<noteq> b"
  shows "feed1 (cb, bars) x = ([x], bars @ [window_bar b cb])"
proof -
  from assms(2,3) have hd: "bucket (tick_datetime (hd (cb @ [x]))) = b" by simp
  from assms(1,2) have "tick_datetime (hd cb) \<le> tick_datetime x"
    by (cases cb) (auto simp: sorted_append)
  with assms(2,3) have "b \<le> bucket (tick_datetime x)"
    using bucket_mono [of "tick_datetime (hd cb)" "tick_datetime x"] by simp
  with assms(4) have lt: "b < bucket (tick_datetime x)" by simp
  have rs: "resample_5T (cb @ [x]) =
             map (\<lambda>c. (c * bin_width, window_ticks (cb @ [x]) c)) [b .. bucket (tick_datetime x)]"
    using resample_5T_sorted [OF assms(1)] hd by simp
  from lt have len: "1 < length (resample_5T (cb @ [x]))"
    by (simp add: rs)
  from lt have "[b .. bucket (tick_datetime x)] ! 0 = b"
    by (simp add: upto.simps)
  with lt have "resample_5T (cb @ [x]) ! 0 = (b * bin_width, window_ticks (cb @ [x]) b)"
    by (simp add: rs)
  also have "window_ticks (cb @ [x]) b = cb"
    using assms(3,4) by (simp add: window_ticks_append window_ticks_all window_ticks_none)
  finally have "ohlc (resample_5T (cb @ [x]) ! 0) = window_bar b cb"
    using assms(2) by (simp add: ohlc_window_bar)
  with len show ?thesis by simp
qed

declare feed1.simps [simp del]

lemma bars_of_bks: "bars_of ts = map (\<lambda>b. window_bar b (window_ticks ts b)) (butlast (bks ts))"
  by (simp add: bars_of_def bks_def)

lemma sorted_buckets:
  "sorted (map tick_datetime xs) \<Longrightarrow> sorted (map (\<lambda>t. bucket (tick_datetime t)) xs)"
  by (induction xs) (auto simp: bucket_mono)

lemma distinct_remdups_adj_sorted_int:
  fixes ys :: "int list"
  shows "sorted ys \<Longrightarrow> distinct (remdups_adj ys)"
  by (induction ys rule: remdups_adj.induct) (auto split: if_split_asm)

lemma remdups_adj_snoc:
  assumes "ys \<noteq> []"
  shows "remdups_adj (ys @ [y]) = (if last ys = y then remdups_adj ys else remdups_adj ys @ [y])"
proof -
  from assms obtain zs z where ys: "ys = zs @ [z]" by (cases ys rule: rev_cases) auto
  show ?thesis
    using remdups_adj_append_two [of zs z y] by (simp add: ys)
qed

lemma bks_snoc:
  "xs \<noteq> [] \<Longrightarrow> bks (xs @ [x]) =
     (if bucket (tick_datetime (last xs)) = bucket (tick_datetime x) then bks xs
      else bks xs @ [bucket (tick_datetime x)])"
  by (simp add: bks_def remdups_adj_snoc last_map)

lemma last_bks: "xs \<noteq> [] \<Longrightarrow> last (bks xs) = bucket (tick_datetime (last xs))"
  by (simp add: bks_def last_map)

lemma bks_Nil_iff [simp]: "bks xs = [] \<longleftrightarrow> xs = []"
  by (simp add: bks_def)

lemma set_bks: "set (bks xs) = (\<lambda>t. bucket (tick_datetime t)) ` set xs"
  by (simp add: bks_def)

lemma distinct_bks: "sorted (map tick_datetime xs) \<Longrightarrow> distinct (bks xs)"
  by (simp add: bks_def sorted_buckets distinct_remdups_adj_sorted_int)

lemma butlast_bks_neq:
  assumes "sorted (map tick_datetime xs)" "xs \<noteq> []" "b \<in> set (butlast (bks xs))"
  shows "b \<noteq> bucket (tick_datetime (last xs))"
proof -
  from assms(2) have "bks xs = butlast (bks xs) @ [last (bks xs)]" by simp
  with distinct_bks [OF assms(1)] have "distinct (butlast (bks xs) @ [last (bks xs)])" by simp
  then have "last (bks xs) \<notin> set (butlast (bks xs))" by simp
  with assms(2,3) show ?thesis by (auto simp: last_bks)
qed

lemma sorted_le_last:
  fixes f :: "'a \<Rightarrow> int"
  shows "sorted (map f xs) \<Longrightarrow> t \<in> set xs \<Longrightarrow> f t \<le> f (last xs)"
  by (induction xs rule: rev_induct) (auto simp: sorted_append)

lemma foldl_feed1_sorted:
  assumes "sorted (map tick_datetime xs)" "xs \<noteq> []"
  shows "foldl feed1 ([], bars0) xs =
           (window_ticks xs (bucket (tick_datetime (last xs))), bars0 @ bars_of xs)"
  using assms
proof (induction xs rule: rev_induct)
  case Nil
  then show ?case by simp
next
  case (snoc x xs)
  show ?case
  proof (cases "xs = []")
    case True
    then show ?thesis
      by (simp add: feed1_first window_ticks_def bars_of_def)
  next
    case False
    let ?bl = "bucket (tick_datetime (last xs))"
    let ?bx = "bucket (tick_datetime x)"
    let ?cb = "window_ticks xs ?bl"
    from snoc.prems have sx: "sorted (map tick_datetime xs)"
      and le: "\<forall>t \<in> set xs. tick_datetime t \<le> tick_datetime x"
      by (auto simp: sorted_append)
    from snoc.IH [OF sx False] have IH: "foldl feed1 ([], bars0) xs = (?cb, bars0 @ bars_of xs)" .
    from False have "last xs \<in> set xs" by simp
    then have cbne: "?cb \<noteq> []"
      by (auto simp: window_ticks_def filter_empty_conv)
    have cball: "\<forall>t \<in> set ?cb. bucket (tick_datetime t) = ?bl"
      by (simp add: window_ticks_def)
    have "sorted (map tick_datetime ?cb)"
      unfolding window_ticks_def using sx by (rule sorted_filter)
    moreover have "\<forall>t \<in> set ?cb. tick_datetime t \<le> tick_datetime x"
      using le by (simp add: window_ticks_def)
    ultimately have scb: "sorted (map tick_datetime (?cb @ [x]))"
      by (auto simp: sorted_append)
    have lebl: "\<forall>t \<in> set xs. bucket (tick_datetime t) \<le> ?bx"
      using le bucket_mono by blast
    show ?thesis
    proof (cases "?bx = ?bl")
      case True
      from feed1_same [OF scb cbne cball True]
      have st: "foldl feed1 ([], bars0) (xs @ [x]) = (?cb @ [x], bars0 @ bars_of xs)"
        by (simp add: IH)
      have w: "window_ticks (xs @ [x]) ?bx = ?cb @ [x]"
        using True by (simp add: window_ticks_def)
      have "bks (xs @ [x]) = bks xs"
        using False True by (simp add: bks_snoc)
      moreover have "\<forall>b \<in> set (butlast (bks xs)). window_ticks (xs @ [x]) b = window_ticks xs b"
        using butlast_bks_neq [OF sx False] True by (auto simp: window_ticks_def)
      ultimately have "bars_of (xs @ [x]) = bars_of xs"
        by (simp add: bars_of_bks)
      with st w show ?thesis by simp
    next
      case neq: False
      from feed1_later [OF scb cbne cball neq]
      have st: "foldl feed1 ([], bars0) (xs @ [x]) = ([x], bars0 @ bars_of xs @ [window_bar ?bl ?cb])"
        by (simp add: IH)
      from False have "last xs \<in> set xs" by simp
      with lebl neq have lt: "?bl < ?bx" by force
      have "\<forall>t \<in> set xs. bucket (tick_datetime t) \<le> ?bl"
        using sorted_le_last [OF sx] bucket_mono by blast
      with lt have nox: "\<forall>t \<in> set xs. bucket (tick_datetime t) \<noteq> ?bx" by force
      then have w: "window_ticks (xs @ [x]) ?bx = [x]"
        by (simp add: window_ticks_def)
      have b1: "bks (xs @ [x]) = bks xs @ [?bx]"
        using False neq by (simp add: bks_snoc)
      have same: "\<forall>b \<in> set (bks xs). window_ticks (xs @ [x]) b = window_ticks xs b"
        using nox by (auto simp: set_bks window_ticks_def)
      have e: "butlast (bks xs) @ [?bl] = bks xs"
        using False last_bks [of xs] append_butlast_last_id [of "bks xs"] by simp
      have "map (\<lambda>b. window_bar b (window_ticks xs b)) (bks xs) =
            map (\<lambda>b. window_bar b (window_ticks xs b)) (butlast (bks xs) @ [?bl])"
        by (simp only: e)
      also have "\<dots> = bars_of xs @ [window_bar ?bl ?cb]"
        by (simp add: bars_of_bks)
      finally have m: "map (\<lambda>b. window_bar b (window_ticks xs b)) (bks xs) =
                 bars_of xs @ [window_bar ?bl ?cb]" .
      have "bars_of (xs @ [x]) = map (\<lambda>b. window_bar b (window_ticks (xs @ [x]) b)) (bks xs)"
        by (simp add: bars_of_bks b1)
      also have "\<dots> = map (\<lambda>b. window_bar b (window_ticks xs b)) (bks xs)"
        using same by (simp cong: map_cong)
      finally have "bars_of (xs @ [x]) = bars_of xs @ [window_bar ?bl ?cb]"
        using m by simp
      with st w show ?thesis by simp
    qed
  qed
qed

lemma sym_view_init:
  "s \<in> set syms \<Longrightarrow> sym_view (HistoricCSVDataHandler_init evs csv syms) s = Some (csv s, [], [])"
  by (simp add: sym_view_def HistoricCSVDataHandler_init_def map_of_const_keys)

lemma sym_view_init_all:
  "\<forall>s \<in> set (symbol_list (HistoricCSVDataHandler_init evs csv syms)).
     sym_view (HistoricCSVDataHandler_init evs csv syms) s \<noteq> None"
  by (simp add: sym_view_def HistoricCSVDataHandler_init_def map_of_const_keys)

lemma feed_rows_sorted:
  assumes "sorted (map tick_datetime ts)"
  shows "snd (snd (feed_rows k (ts, [], []))) = bars_of (take k ts)"
proof -
  define xs where "xs = take k ts"
  have f: "snd (snd (feed_rows k (ts, [], []))) = snd (foldl feed1 ([], []) xs)"
    by (simp add: feed_rows_foldl xs_def)
  have "snd (foldl feed1 ([], []) xs) = bars_of xs"
  proof (cases "xs = []")
    case True
    then show ?thesis by (simp add: bars_of_def)
  next
    case False
    from assms have "sorted (map tick_datetime xs)"
      by (simp add: xs_def take_map [symmetric] sorted_wrt_take)
    from foldl_feed1_sorted [OF this False, of "[]"] show ?thesis by simp
  qed
  with f show ?thesis by (simp add: xs_def)
qed

lemma update_ticks_n_init_bars:
  assumes "sorted (map tick_datetime (csv s))" and "s \<in> set syms"
  shows "\<exists>h. update_ticks_n n (HistoricCSVDataHandler_init evs csv syms) = Inr h
           \<and> latest_bars_data h s = Some (bars_of (take (n * count_list syms s) (csv s)))"
proof -
  let ?h0 = "HistoricCSVDataHandler_init evs csv syms"
  from update_ticks_n_view [OF sym_view_init_all, where n = n and evs1 = evs and csv1 = csv and syms1 = syms]
  obtain h where
    h: "update_ticks_n n ?h0 = Inr h"
    and v: "\<forall>s. sym_view h s = map_option (feed_rows (n * count_list (symbol_list ?h0) s)) (sym_view ?h0 s)"
    by blast
  have sl: "symbol_list ?h0 = syms" by (simp add: HistoricCSVDataHandler_init_def)
  from v assms(2) have "sym_view h s = Some (feed_rows (n * count_list syms s) (csv s, [], []))"
    by (simp add: sym_view_init sl)
  then have "latest_bars_data h s = Some (snd (snd (feed_rows (n * count_list syms s) (csv s, [], []))))"
    by (cases "feed_rows (n * count_list syms s) (csv s, [], [])") (simp add: sym_view_Some)
  with h show ?thesis
    by (simp add: feed_rows_sorted [OF assms(1)])
qed

lemma bars_of_snoc:
  assumes "sorted (map tick_datetime (xs @ [x]))"
  shows "bars_of (xs @ [x]) =
           (if xs \<noteq> [] \<and> bucket (tick_datetime (last xs)) \<noteq> bucket (tick_datetime x)
            then bars_of xs @ [window_bar (bucket (tick_datetime (last xs)))
                                 (window_ticks xs (bucket (tick_datetime (last xs))))]
            else bars_of xs)"
proof (cases "xs = []")
  case True
  then show ?thesis by (simp add: bars_of_def)
next
  case False
  from assms have sx: "sorted (map tick_datetime xs)" by (simp add: sorted_append)
  have "foldl feed1 ([], []) (xs @ [x]) = feed1 (foldl feed1 ([], []) xs) x" by simp
  then have e: "(window_ticks (xs @ [x]) (bucket (tick_datetime x)), bars_of (xs @ [x])) =
             feed1 (window_ticks xs (bucket (tick_datetime (last xs))), bars_of xs) x"
    using foldl_feed1_sorted [OF assms, of "[]"] foldl_feed1_sorted [OF sx False, of "[]"]
    by simp
  let ?bl = "bucket (tick_datetime (last xs))"
  let ?cb = "window_ticks xs ?bl"
  from False have "last xs \<in> set xs" by simp
  then have cbne: "?cb \<noteq> []" by (auto simp: window_ticks_def filter_empty_conv)
  have cball: "\<forall>t \<in> set ?cb. bucket (tick_datetime t) = ?bl" by (simp add: window_ticks_def)
  have "sorted (map tick_datetime ?cb)"
    unfolding window_ticks_def using sx by (rule sorted_filter)
  moreover have "\<forall>t \<in> set ?cb. tick_datetime t \<le> tick_datetime x"
    using assms by (auto simp: window_ticks_def sorted_append)
  ultimately have scb: "sorted (map tick_datetime (?cb @ [x]))" by (auto simp: sorted_append)
  show ?thesis
  proof (cases "bucket (tick_datetime x) = ?bl")
    case True
    from feed1_same [OF scb cbne cball True, of "bars_of xs"] e True False show ?thesis by simp
  next
    case neq: False
    from feed1_later [OF scb cbne cball neq, of "bars_of xs"] e neq False show ?thesis by auto
  qed
qed

text \<open>
  Claim C7. Let the ticks of a symbol be in time order (strictly or not) and let the
  handler start from \<^verbatim>\<open>__init__\<close>. After any number of update steps the bar history of
  the symbol is \<open>bars_of\<close> of the ticks read so far: one bar for every window but the
  last, with the first price of the window as open, the largest as high, the smallest as
  low and the last as close. The still-filling window is never a bar; in particular the
  first window is no bar until a tick of a second window is read. Reading one more tick
  adds a bar exactly when that tick lies in another window than the tick before it, and
  the bar added is the one of the window of the tick before.
\<close>

theorem bars_of_ordered_ticks:
  assumes "sorted (map tick_datetime (csv s))" and "s \<in> set syms"
  shows "(\<exists>h. update_ticks_n n (HistoricCSVDataHandler_init evs csv syms) = Inr h
            \<and> latest_bars_data h s = Some (bars_of (take (n * count_list syms s) (csv s))))
         \<and> (\<forall>m < length (csv s).
               bars_of (take (Suc m) (csv s)) =
                 (if 0 < m \<and> bucket (tick_datetime (csv s ! (m - 1))) \<noteq> bucket (tick_datetime (csv s ! m))
                  then bars_of (take m (csv s)) @
                         [window_bar (bucket (tick_datetime (csv s ! (m - 1))))
                            (window_ticks (take m (csv s)) (bucket (tick_datetime (csv s ! (m - 1)))))]
                  else bars_of (take m (csv s))))"
proof (intro conjI allI impI)
  show "\<exists>h. update_ticks_n n (HistoricCSVDataHandler_init evs csv syms) = Inr h
            \<and> latest_bars_data h s = Some (bars_of (take (n * count_list syms s) (csv s)))"
    using assms by (rule update_ticks_n_init_bars)
next
  fix m assume m: "m < length (csv s)"
  let ?ts = "csv s"
  have tk: "take (Suc m) ?ts = take m ?ts @ [?ts ! m]"
    using m by (simp add: take_Suc_conv_app_nth)
  from assms(1) have "sorted (map tick_datetime (take (Suc m) ?ts))"
    by (simp add: take_map [symmetric] sorted_wrt_take)
  then have s1: "sorted (map tick_datetime (take m ?ts @ [?ts ! m]))"
    by (simp only: tk)
  have e: "take m ?ts \<noteq> [] \<longleftrightarrow> 0 < m" using m by auto
  from m have ne: "?ts \<noteq> []" by auto
  have l: "0 < m \<Longrightarrow> last (take m ?ts) = ?ts ! (m - 1)"
    using m ne by (simp add: last_conv_nth)
  show "bars_of (take (Suc m) ?ts) =
          (if 0 < m \<and> bucket (tick_datetime (?ts ! (m - 1))) \<noteq> bucket (tick_datetime (?ts ! m))
           then bars_of (take m ?ts) @
                  [window_bar (bucket (tick_datetime (?ts ! (m - 1))))
                     (window_ticks (take m ?ts) (bucket (tick_datetime (?ts ! (m - 1)))))]
           else bars_of (take m ?ts))"
    unfolding tk using bars_of_snoc [OF s1] e l by (cases "0 < m") simp_all
qed

theorem bars_of_ordered_ticks_witness:
  "\<exists>h. update_ticks_n 4 (HistoricCSVDataHandler_init [] (\<lambda>s. four_ticks) [''EURUSD'']) = Inr h
     \<and> latest_bars_data h ''EURUSD'' =
         Some [\<lparr>bar_datetime = 0, bar_open = 1, bar_high = 3, bar_low = 1, bar_close = 3\<rparr>,
               \<lparr>bar_datetime = 300000000000, bar_open = 2, bar_high = 2, bar_low = 2, bar_close = 2\<rparr>]"
proof -
  have a: "sorted (map tick_datetime ((\<lambda>s. four_ticks) ''EURUSD''))"
    by (simp add: four_ticks_def)
  have b: "''EURUSD'' \<in> set [''EURUSD'']" by simp
  have c: "bars_of (take (4 * count_list [''EURUSD''] ''EURUSD'') four_ticks) =
         [\<lparr>bar_datetime = 0, bar_open = 1, bar_high = 3, bar_low = 1, bar_close = 3\<rparr>,
          \<lparr>bar_datetime = 300000000000, bar_open = 2, bar_high = 2, bar_low = 2, bar_close = 2\<rparr>]"
    by (simp add: four_ticks_def bars_of_def window_bar_def window_ticks_def bucket_def bin_width_def)
  from bars_of_ordered_ticks [OF a b, of 4 "[]"] c show ?thesis by simp
qed






section \<open>The signal state machine\<close>

lemma calculate_min_max_price_cases:
  assumes "calculate_min_max_price st s p = Inr st1"
  shows "\<exists>po mx mn. omm_price st s = Some (po, mx, mn)
           \<and> st1 = (if po \<noteq> 0 then st\<lparr>omm_price := (omm_price st)(s \<mapsto> (po, max mx p, min mn p))\<rparr> else st)"
  using assms by (auto simp: calculate_min_max_price_def split: option.splits if_splits)

lemma calculate_min_max_price_frame:
  assumes "calculate_min_max_price st s p = Inr st1"
  shows "bought st1 = bought st" "use_window st1 = use_window st"
    "short_window st1 = short_window st" "mid_window st1 = mid_window st"
    "long_window st1 = long_window st" "strat_symbol_list st1 = strat_symbol_list st"
    "min_diff st1 = min_diff st" "min_deep st1 = min_deep st" "plus st1 = plus st"
    "sl st1 = sl st" "tp st1 = tp st" "ts_step st1 = ts_step st"
    "\<And>s'. s' \<noteq> s \<Longrightarrow> omm_price st1 s' = omm_price st s'"
  using calculate_min_max_price_cases [OF assms] by (auto split: if_splits)


lemma calculate_signals_symbol_full:
  assumes "get_latest_bars_values bars s COL_close (use_window st) = Inr bars_value"
    and "get_latest_tick_datetime bars s = Inr tick_date"
    and "get_latest_tick_value bars s = Inr tick_price"
    and "calculate_min_max_price st s tick_price = Inr st1"
    and "omm_price st1 s = Some omm"
    and "int (length bars_value) = use_window st" and "bars_value \<noteq> []"
    and "ewm_mean_last (short_window st) bars_value = Inr short_ema"
    and "ewm_mean_last (mid_window st) bars_value = Inr mid_ema"
    and "ewm_mean_last (long_window st) bars_value = Inr long_ema"
  shows "calculate_signals_symbol hour_et hour_ld bars s (st, q) =
           signal_chain s (last bars_value) short_ema mid_ema long_ema
             (hour_ld tick_date) (hour_et tick_date) tick_price omm (st1, q)"
proof -
  from assms(7) obtain x xs where "bars_value = x # xs" by (cases bars_value) auto
  with assms show ?thesis
    by (simp add: calculate_signals_symbol_def signal_step.simps
        calculate_min_max_price_frame [OF assms(4)])
qed

lemma calculate_signals_symbol_short:
  assumes "get_latest_bars_values bars s COL_close (use_window st) = Inr bars_value"
    and "get_latest_tick_datetime bars s = Inr tick_date"
    and "get_latest_tick_value bars s = Inr tick_price"
    and "calculate_min_max_price st s tick_price = Inr st1"
    and "int (length bars_value) \<noteq> use_window st"
  shows "calculate_signals_symbol hour_et hour_ld bars s (st, q) = Inr (st1, q)"
proof -
  from calculate_min_max_price_cases [OF assms(4)] have "omm_price st1 s \<noteq> None"
    by (auto split: if_splits)
  with assms show ?thesis
    by (auto simp: calculate_signals_symbol_def signal_step.simps
        calculate_min_max_price_frame [OF assms(4)])
qed

lemma scenario_values:
  "get_latest_bars_values (scenario_handler d p) ''EURUSD'' COL_close 16 = Inr scenario_closes"
  "get_latest_tick_datetime (scenario_handler d p) ''EURUSD'' = Inr d"
  "get_latest_tick_value (scenario_handler d p) ''EURUSD'' = Inr p"
  by (simp_all add: get_latest_bars_values_def get_latest_bars_def slice_last_def
      get_latest_tick_datetime_def get_latest_tick_value_def scenario_handler_def
      scenario_closes_def comp_def)

lemma scenario_emas:
  "ewm_mean_last 2 scenario_closes = Inr 1.0010"
  "ewm_mean_last 3 scenario_closes = Inr 1.0000"
  "ewm_mean_last 4 scenario_closes = Inr 0.9990"
  "last scenario_closes = 1.0005" "length scenario_closes = 16"
  by (simp_all add: ewm_mean_last_def ewm_step_def scenario_closes_def numeral_eq_Suc)

lemma ewm_mean_last_nonempty: "ewm_mean_last spn xs = Inr y \<Longrightarrow> xs \<noteq> []"
  by (auto simp: ewm_mean_last_def split: if_splits)

lemma signal_chain_unfold:
  assumes "bought st s = Some ph"
  shows "signal_chain s lbp se me le hl he p (po, mx, mn) (st, q) =
     (if long_entry_cond st ph lbp se me le hl he
      then Inr (st\<lparr>omm_price := (omm_price st)(s \<mapsto> (p, p, p)), bought := (bought st)(s \<mapsto> LONG)\<rparr>,
                q @ [SignalEvent 1 s SIG_LONG 1])
      else if short_entry_cond st ph lbp se me le hl he
      then Inr (st\<lparr>bought := (bought st)(s \<mapsto> SHORT), omm_price := (omm_price st)(s \<mapsto> (p, p, p))\<rparr>,
                q @ [SignalEvent 1 s SIG_SHORT 1])
      else if long_exit_cond st ph p po mx
      then Inr (st\<lparr>omm_price := (omm_price st)(s \<mapsto> (0, 0, 0)), bought := (bought st)(s \<mapsto> OUT)\<rparr>,
                q @ [SignalEvent 1 s SIG_EXIT 1])
      else if short_exit_cond st ph p po mn
      then Inr (st\<lparr>omm_price := (omm_price st)(s \<mapsto> (0, 0, 0)), bought := (bought st)(s \<mapsto> OUT)\<rparr>,
                q @ [SignalEvent 1 s SIG_EXIT 1])
      else Inr (st, q))"
  unfolding signal_chain.simps assms option.case
    long_entry_cond_def short_entry_cond_def long_exit_cond_def short_exit_cond_def
  by (rule refl)

lemma signal_chain_KeyError:
  "bought st s = None \<Longrightarrow> signal_chain s lbp se me le hl he p omm (st, q) = Inl KeyError"
  by (cases omm) (simp add: signal_chain.simps)

lemma entry_cond_OUT:
  "long_entry_cond st ph lbp se me le hl he \<Longrightarrow> ph = OUT \<and> hl \<ge> 8 \<and> he < 17"
  "short_entry_cond st ph lbp se me le hl he \<Longrightarrow> ph = OUT \<and> hl \<ge> 8 \<and> he < 17"
  by (simp_all add: long_entry_cond_def short_entry_cond_def)

lemma exit_cond_phase:
  "long_exit_cond st ph p po mx \<Longrightarrow> ph = LONG"
  "short_exit_cond st ph p po mn \<Longrightarrow> ph = SHORT"
  by (simp_all add: long_exit_cond_def short_exit_cond_def)

lemma signal_chain_cases:
  assumes "signal_chain s lbp se me le hl he p omm (st, q) = Inr (st', q')"
  shows "(st' = st \<and> q' = q)
       \<or> (bought st s = Some OUT \<and> q' = q @ [SignalEvent 1 s SIG_LONG 1]
            \<and> st' = st\<lparr>omm_price := (omm_price st)(s \<mapsto> (p, p, p)), bought := (bought st)(s \<mapsto> LONG)\<rparr>
            \<and> hl \<ge> 8 \<and> he < 17)
       \<or> (bought st s = Some OUT \<and> q' = q @ [SignalEvent 1 s SIG_SHORT 1]
            \<and> st' = st\<lparr>bought := (bought st)(s \<mapsto> SHORT), omm_price := (omm_price st)(s \<mapsto> (p, p, p))\<rparr>
            \<and> hl \<ge> 8 \<and> he < 17)
       \<or> (bought st s = Some LONG \<and> q' = q @ [SignalEvent 1 s SIG_EXIT 1]
            \<and> st' = st\<lparr>omm_price := (omm_price st)(s \<mapsto> (0, 0, 0)), bought := (bought st)(s \<mapsto> OUT)\<rparr>)
       \<or> (bought st s = Some SHORT \<and> q' = q @ [SignalEvent 1 s SIG_EXIT 1]
            \<and> st' = st\<lparr>omm_price := (omm_price st)(s \<mapsto> (0, 0, 0)), bought := (bought st)(s \<mapsto> OUT)\<rparr>)"
proof -
  obtain po mx mn where omm: "omm = (po, mx, mn)" by (cases omm)
  from assms obtain ph where ph: "bought st s = Some ph"
    by (cases "bought st s") (auto simp: signal_chain_KeyError)
  note u = signal_chain_unfold [OF ph, of lbp se me le hl he p po mx mn q]
  show ?thesis
  proof (cases "long_entry_cond st ph lbp se me le hl he")
    case True
    with assms u omm ph entry_cond_OUT(1) [OF True] show ?thesis by simp
  next
    case c1: False
    show ?thesis
    proof (cases "short_entry_cond st ph lbp se me le hl he")
      case True
      with assms u omm ph c1 entry_cond_OUT(2) [OF True] show ?thesis by simp
    next
      case c2: False
      show ?thesis
      proof (cases "long_exit_cond st ph p po mx")
        case True
        with assms u omm ph c1 c2 exit_cond_phase(1) [OF True] show ?thesis by simp
      next
        case c3: False
        show ?thesis
        proof (cases "short_exit_cond st ph p po mn")
          case True
          with assms u omm ph c1 c2 c3 exit_cond_phase(2) [OF True] show ?thesis by simp
        next
          case False
          with assms u omm c1 c2 c3 show ?thesis by simp
        qed
      qed
    qed
  qed
qed

lemma signal_step_cases:
  assumes "signal_step hour_et hour_ld s bars_value tick_date tick_price (st, q) = Inr (st', q')"
  shows "\<exists>st1 po mx mn. calculate_min_max_price st s tick_price = Inr st1
           \<and> omm_price st1 s = Some (po, mx, mn)
           \<and> ((st' = st1 \<and> q' = q)
              \<or> (int (length bars_value) = use_window st \<and> bars_value \<noteq> []
                  \<and> (\<exists>se me le. ewm_mean_last (short_window st) bars_value = Inr se
                        \<and> ewm_mean_last (mid_window st) bars_value = Inr me
                        \<and> ewm_mean_last (long_window st) bars_value = Inr le
                        \<and> signal_chain s (last bars_value) se me le (hour_ld tick_date) (hour_et tick_date)
                              tick_price (po, mx, mn) (st1, q) = Inr (st', q'))))"
proof -
  from assms obtain st1 where st1: "calculate_min_max_price st s tick_price = Inr st1"
    by (cases "calculate_min_max_price st s tick_price") (auto simp: signal_step.simps)
  note fr = calculate_min_max_price_frame [OF st1]
  from assms st1 obtain omm where omm0: "omm_price st1 s = Some omm"
    by (cases "omm_price st1 s") (auto simp: signal_step.simps)
  obtain po mx mn where "omm = (po, mx, mn)" by (cases omm)
  with omm0 have omm: "omm_price st1 s = Some (po, mx, mn)" by simp
  have "(st' = st1 \<and> q' = q)
              \<or> (int (length bars_value) = use_window st \<and> bars_value \<noteq> []
                  \<and> (\<exists>se me le. ewm_mean_last (short_window st) bars_value = Inr se
                        \<and> ewm_mean_last (mid_window st) bars_value = Inr me
                        \<and> ewm_mean_last (long_window st) bars_value = Inr le
                        \<and> signal_chain s (last bars_value) se me le (hour_ld tick_date) (hour_et tick_date)
                              tick_price (po, mx, mn) (st1, q) = Inr (st', q')))"
  proof (cases "int (length bars_value) = use_window st")
    case False
    with assms st1 omm show ?thesis by (simp add: signal_step.simps fr)
  next
    case True
    with assms st1 omm obtain x xs where bv: "bars_value = x # xs"
      by (cases bars_value) (auto simp: signal_step.simps fr)
    from assms st1 omm True bv show ?thesis
      by (auto simp: signal_step.simps fr split: sum.splits)
  qed
  with st1 omm show ?thesis by blast
qed

lemma calculate_signals_symbol_cases:
  assumes "calculate_signals_symbol hour_et hour_ld bars s (st, q) = Inr (st', q')"
  shows "\<exists>bars_value tick_date tick_price.
           get_latest_bars_values bars s COL_close (use_window st) = Inr bars_value
           \<and> get_latest_tick_datetime bars s = Inr tick_date
           \<and> get_latest_tick_value bars s = Inr tick_price
           \<and> signal_step hour_et hour_ld s bars_value tick_date tick_price (st, q) = Inr (st', q')"
  using assms by (auto simp: calculate_signals_symbol_def split: sum.splits)



text \<open>
  Claim C1. \<^verbatim>\<open>calculate_signals\<close> is the sequence of its loop iterations, and the phase
  of a symbol changes nowhere else. An iteration for the symbol \<open>s\<close> that returns leaves
  the phase of every other symbol alone, and for \<open>s\<close> it either keeps the phase and puts
  nothing on the queue, or goes from OUT to LONG or from OUT to SHORT with the entry signal,
  or from LONG to OUT or from SHORT to OUT with an EXIT signal. So LONG and SHORT are only
  entered from OUT and only left for OUT, and between a LONG and a SHORT phase of a symbol
  there is always an EXIT.
\<close>

theorem phase_transitions:
  assumes "calculate_signals_symbol hour_et hour_ld bars s (st, q) = Inr (st', q')"
  shows "(\<forall>s'. s' \<noteq> s \<longrightarrow> bought st' s' = bought st s')
       \<and> ((bought st' s = bought st s \<and> q' = q)
          \<or> (bought st s = Some OUT \<and> bought st' s = Some LONG \<and> q' = q @ [SignalEvent 1 s SIG_LONG 1])
          \<or> (bought st s = Some OUT \<and> bought st' s = Some SHORT \<and> q' = q @ [SignalEvent 1 s SIG_SHORT 1])
          \<or> (bought st s = Some LONG \<and> bought st' s = Some OUT \<and> q' = q @ [SignalEvent 1 s SIG_EXIT 1])
          \<or> (bought st s = Some SHORT \<and> bought st' s = Some OUT \<and> q' = q @ [SignalEvent 1 s SIG_EXIT 1]))"
proof -
  from calculate_signals_symbol_cases [OF assms] obtain bars_value tick_date tick_price where
    "signal_step hour_et hour_ld s bars_value tick_date tick_price (st, q) = Inr (st', q')"
    by blast
  from signal_step_cases [OF this] obtain st1 po mx mn where
    st1: "calculate_min_max_price st s tick_price = Inr st1"
    and d: "(st' = st1 \<and> q' = q)
          \<or> (\<exists>se me le. signal_chain s (last bars_value) se me le (hour_ld tick_date) (hour_et tick_date)
                              tick_price (po, mx, mn) (st1, q) = Inr (st', q'))"
    by blast
  note fr = calculate_min_max_price_frame(1) [OF st1]
  from d show ?thesis
  proof
    assume "st' = st1 \<and> q' = q"
    then show ?thesis by (simp add: fr)
  next
    assume "\<exists>se me le. signal_chain s (last bars_value) se me le (hour_ld tick_date) (hour_et tick_date)
                              tick_price (po, mx, mn) (st1, q) = Inr (st', q')"
    then obtain se me le where
      "signal_chain s (last bars_value) se me le (hour_ld tick_date) (hour_et tick_date)
                              tick_price (po, mx, mn) (st1, q) = Inr (st', q')"
      by blast
    from signal_chain_cases [OF this] show ?thesis
      by (elim disjE conjE) (simp_all add: fr)
  qed
qed

lemma scenario_strategy_simps:
  "use_window (scenario_strategy ph a) = 16"
  "short_window (scenario_strategy ph a) = 2"
  "mid_window (scenario_strategy ph a) = 3"
  "long_window (scenario_strategy ph a) = 4"
  "bought (scenario_strategy ph a) ''EURUSD'' = Some ph"
  "omm_price (scenario_strategy ph a) ''EURUSD'' = Some a"
  "min_deep (scenario_strategy ph a) = 0"
  "min_diff (scenario_strategy ph a) = 0.0001"
  "plus (scenario_strategy ph a) = 0"
  "tp (scenario_strategy ph a) = 0.0010"
  "sl (scenario_strategy ph a) = 0.0005"
  "ts_step (scenario_strategy ph a) = 0.0005"
  by (simp_all add: scenario_strategy_def)

lemma scenario_hours:
  "hour_utc 1609750800000000000 = 9" "hour_utc_minus_5 1609750800000000000 = 4"
  "hour_utc 1609743600000000000 = 7" "hour_utc_minus_5 1609743600000000000 = 2"
  by (simp_all add: hour_utc_def hour_utc_minus_5_def)


lemma scenario_entry_step:
  "calculate_signals_symbol hour_utc_minus_5 hour_utc
     (scenario_handler 1609750800000000000 p) ''EURUSD'' (scenario_strategy OUT (0, 0, 0), [])
   = Inr (scenario_strategy LONG (p, p, p), [SignalEvent 1 ''EURUSD'' SIG_LONG 1])"
proof -
  let ?h = "scenario_handler 1609750800000000000 p"
  let ?st = "scenario_strategy OUT (0, 0, 0)"
  have mm: "calculate_min_max_price ?st ''EURUSD'' p = Inr ?st"
    by (simp add: calculate_min_max_price_def scenario_strategy_simps)
  have c: "long_entry_cond ?st OUT 1.0005 1.0010 1.0000 0.9990 9 4"
    by (simp add: long_entry_cond_def scenario_strategy_simps)
  have "calculate_signals_symbol hour_utc_minus_5 hour_utc ?h ''EURUSD'' (?st, []) =
          signal_chain ''EURUSD'' (last scenario_closes) 1.0010 1.0000 0.9990
            (hour_utc 1609750800000000000) (hour_utc_minus_5 1609750800000000000) p (0, 0, 0) (?st, [])"
    by (rule calculate_signals_symbol_full [OF _ _ _ mm])
       (simp_all add: scenario_values scenario_strategy_simps scenario_emas ewm_mean_last_nonempty [OF scenario_emas(1)])
  also have "\<dots> = Inr (?st\<lparr>omm_price := (omm_price ?st)(''EURUSD'' \<mapsto> (p, p, p)),
                          bought := (bought ?st)(''EURUSD'' \<mapsto> LONG)\<rparr>,
                      [] @ [SignalEvent 1 ''EURUSD'' SIG_LONG 1])"
    using c by (simp add: signal_chain_unfold [of ?st _ OUT] scenario_strategy_simps scenario_emas scenario_hours)
  also have "?st\<lparr>omm_price := (omm_price ?st)(''EURUSD'' \<mapsto> (p, p, p)),
                  bought := (bought ?st)(''EURUSD'' \<mapsto> LONG)\<rparr> = scenario_strategy LONG (p, p, p)"
    by (simp add: scenario_strategy_def)
  finally show ?thesis by simp
qed

theorem phase_transitions_witness:
  "bought (scenario_strategy OUT (0, 0, 0)) ''EURUSD'' = Some OUT
   \<and> bought (scenario_strategy LONG (1.0005, 1.0005, 1.0005)) ''EURUSD'' = Some LONG
   \<and> calculate_signals_symbol hour_utc_minus_5 hour_utc
        (scenario_handler 1609750800000000000 1.0005) ''EURUSD'' (scenario_strategy OUT (0, 0, 0), [])
      = Inr (scenario_strategy LONG (1.0005, 1.0005, 1.0005), [] @ [SignalEvent 1 ''EURUSD'' SIG_LONG 1])"
  using phase_transitions [OF scenario_entry_step [of "1.0005"]] scenario_entry_step [of "1.0005"]
  by (simp add: scenario_strategy_simps)

text \<open>
  Claim C8. When the session gate is false at the latest tick (London hour below 8, or
  New York hour 17 or later), an iteration that returns puts no LONG and no SHORT signal
  on the queue: it puts nothing or a single EXIT; and a symbol that is OUT stays OUT with
  nothing put. The witness is Scenario A: London hour 7, phase OUT, the window of
  Scenario B (all conditions on the means hold), no event and the phase still OUT.
\<close>

theorem no_entry_outside_session:
  assumes "get_latest_tick_datetime bars s = Inr tick_date"
    and "hour_ld tick_date < 8 \<or> hour_et tick_date \<ge> 17"
    and "calculate_signals_symbol hour_et hour_ld bars s (st, q) = Inr (st', q')"
  shows "(q' = q \<or> q' = q @ [SignalEvent 1 s SIG_EXIT 1])
       \<and> (bought st s = Some OUT \<longrightarrow> q' = q \<and> bought st' s = Some OUT)"
proof -
  from calculate_signals_symbol_cases [OF assms(3)] assms(1) obtain bars_value tick_price where
    "signal_step hour_et hour_ld s bars_value tick_date tick_price (st, q) = Inr (st', q')"
    by auto
  from signal_step_cases [OF this] obtain st1 po mx mn where
    st1: "calculate_min_max_price st s tick_price = Inr st1"
    and d: "(st' = st1 \<and> q' = q)
          \<or> (\<exists>se me le. signal_chain s (last bars_value) se me le (hour_ld tick_date) (hour_et tick_date)
                              tick_price (po, mx, mn) (st1, q) = Inr (st', q'))"
    by blast
  note fr = calculate_min_max_price_frame(1) [OF st1]
  from d show ?thesis
  proof
    assume "st' = st1 \<and> q' = q"
    then show ?thesis by (simp add: fr)
  next
    assume "\<exists>se me le. signal_chain s (last bars_value) se me le (hour_ld tick_date) (hour_et tick_date)
                              tick_price (po, mx, mn) (st1, q) = Inr (st', q')"
    then obtain se me le where
      "signal_chain s (last bars_value) se me le (hour_ld tick_date) (hour_et tick_date)
                              tick_price (po, mx, mn) (st1, q) = Inr (st', q')"
      by blast
    from signal_chain_cases [OF this] assms(2) show ?thesis
      by (elim disjE conjE) (simp_all add: fr)
  qed
qed

lemma scenario_gate_step:
  "calculate_signals_symbol hour_utc_minus_5 hour_utc
     (scenario_handler 1609743600000000000 1.0005) ''EURUSD'' (scenario_strategy OUT (0, 0, 0), [])
   = Inr (scenario_strategy OUT (0, 0, 0), [])"
proof -
  let ?h = "scenario_handler 1609743600000000000 1.0005"
  let ?st = "scenario_strategy OUT (0, 0, 0)"
  have mm: "calculate_min_max_price ?st ''EURUSD'' 1.0005 = Inr ?st"
    by (simp add: calculate_min_max_price_def scenario_strategy_simps)
  have "calculate_signals_symbol hour_utc_minus_5 hour_utc ?h ''EURUSD'' (?st, []) =
          signal_chain ''EURUSD'' (last scenario_closes) 1.0010 1.0000 0.9990
            (hour_utc 1609743600000000000) (hour_utc_minus_5 1609743600000000000) 1.0005 (0, 0, 0) (?st, [])"
    by (rule calculate_signals_symbol_full [OF _ _ _ mm])
       (simp_all add: scenario_values scenario_strategy_simps scenario_emas
          ewm_mean_last_nonempty [OF scenario_emas(1)])
  also have "\<dots> = Inr (?st, [])"
    by (simp add: signal_chain_unfold [of ?st _ OUT] scenario_strategy_simps scenario_emas scenario_hours
        long_entry_cond_def short_entry_cond_def long_exit_cond_def short_exit_cond_def)
  finally show ?thesis .
qed

theorem no_entry_outside_session_witness:
  "hour_utc 1609743600000000000 = 7
   \<and> calculate_signals_symbol hour_utc_minus_5 hour_utc
        (scenario_handler 1609743600000000000 1.0005) ''EURUSD'' (scenario_strategy OUT (0, 0, 0), [])
      = Inr (scenario_strategy OUT (0, 0, 0), [])
   \<and> bought (scenario_strategy OUT (0, 0, 0)) ''EURUSD'' = Some OUT
   \<and> 1.0010 > (1.0005 :: real) \<and> (1.0005 :: real) > 1.0000 \<and> (1.0000 :: real) > 0.9990"
proof -
  have 1: "get_latest_tick_datetime (scenario_handler 1609743600000000000 1.0005) ''EURUSD''
             = Inr 1609743600000000000"
    by (rule scenario_values)
  have 2: "hour_utc 1609743600000000000 < 8 \<or> hour_utc_minus_5 1609743600000000000 \<ge> 17"
    by (simp add: scenario_hours)
  from no_entry_outside_session [OF 1 2 scenario_gate_step] scenario_gate_step
  show ?thesis by (simp add: scenario_hours scenario_strategy_simps)
qed

section \<open>Reachable states, exits and the sources of the prices\<close>

lemma update_ticks_symbol_same_window:
  assumes "symbol_data h a = Some (t # rest)" "current_bar h a = Some cb"
    and "\<not> 1 < length (resample_5T (cb @ [t]))"
  shows "update_ticks_symbol a h =
     Inr (h\<lparr>downsamp := (downsamp h)(a \<mapsto> Some (resample_5T (cb @ [t]))),
            symbol_data := (symbol_data h)(a \<mapsto> rest),
            latest_symbol_data := (latest_symbol_data h)(a \<mapsto> [t]),
            current_bar := (current_bar h)(a \<mapsto> cb @ [t])\<rparr>)"
  using assms by (simp add: update_ticks_symbol_def Let_def)

lemma update_ticks_symbol_grow:
  assumes "update_ticks_symbol a h = Inr h'"
  shows "(\<forall>s bl. latest_bars_data h s = Some bl \<longrightarrow> (\<exists>new. latest_bars_data h' s = Some (bl @ new)))
       \<and> (\<forall>s t ts. latest_symbol_data h s = Some (t # ts) \<longrightarrow> (\<exists>t' ts'. latest_symbol_data h' s = Some (t' # ts')))"
proof (cases "symbol_data h a")
  case None
  with assms show ?thesis by (simp add: update_ticks_symbol_def)
next
  case (Some src)
  show ?thesis
  proof (cases src)
    case Nil
    with Some assms show ?thesis by (auto simp: update_ticks_symbol_exhausted)
  next
    case (Cons t rest)
    show ?thesis
    proof (cases "current_bar h a")
      case None
      with Some Cons assms show ?thesis by (simp add: update_ticks_symbol_def)
    next
      case cb: (Some cb)
      show ?thesis
      proof (cases "1 < length (resample_5T (cb @ [t]))")
        case False
        from update_ticks_symbol_same_window [OF _ cb False, of rest] Some Cons assms
        have "h' = h\<lparr>downsamp := (downsamp h)(a \<mapsto> Some (resample_5T (cb @ [t]))),
            symbol_data := (symbol_data h)(a \<mapsto> rest),
            latest_symbol_data := (latest_symbol_data h)(a \<mapsto> [t]),
            current_bar := (current_bar h)(a \<mapsto> cb @ [t])\<rparr>"
          by simp
        then show ?thesis by simp
      next
        case True
        show ?thesis
        proof (cases "latest_bars_data h a")
          case None
          with Some Cons cb True assms show ?thesis by (simp add: update_ticks_symbol_def Let_def)
        next
          case bars: (Some bars)
          from update_ticks_symbol_tick [OF _ cb bars, of t rest] Some Cons assms True
          have "h' = h\<lparr>downsamp := (downsamp h)(a \<mapsto> Some (resample_5T (cb @ [t]))),
            symbol_data := (symbol_data h)(a \<mapsto> rest),
            latest_symbol_data := (latest_symbol_data h)(a \<mapsto> [t]),
            current_bar := (current_bar h)(a \<mapsto> [t]),
            latest_bars_data := (latest_bars_data h)(a \<mapsto> bars @ [ohlc (resample_5T (cb @ [t]) ! 0)])\<rparr>"
            by simp
          with bars show ?thesis by simp
        qed
      qed
    qed
  qed
qed

lemma update_ticks_loop_grow:
  assumes "update_ticks_loop ss h = Inr h'"
  shows "(\<forall>s bl. latest_bars_data h s = Some bl \<longrightarrow> (\<exists>new. latest_bars_data h' s = Some (bl @ new)))
       \<and> (\<forall>s t ts. latest_symbol_data h s = Some (t # ts) \<longrightarrow> (\<exists>t' ts'. latest_symbol_data h' s = Some (t' # ts')))"
  using assms
proof (induction ss arbitrary: h)
  case Nil
  then show ?case by simp
next
  case (Cons a ss)
  from Cons.prems obtain h1 where h1: "update_ticks_symbol a h = Inr h1" and l: "update_ticks_loop ss h1 = Inr h'"
    by (cases "update_ticks_symbol a h") auto
  note g1 = update_ticks_symbol_grow [OF h1]
  note g2 = Cons.IH [OF l]
  show ?case
  proof (intro conjI allI impI)
    fix s bl assume "latest_bars_data h s = Some bl"
    with g1 obtain new1 where "latest_bars_data h1 s = Some (bl @ new1)" by blast
    with g2 obtain new2 where "latest_bars_data h' s = Some ((bl @ new1) @ new2)" by blast
    then have "latest_bars_data h' s = Some (bl @ (new1 @ new2))" by simp
    then show "\<exists>new. latest_bars_data h' s = Some (bl @ new)" by blast
  next
    fix s t ts assume "latest_symbol_data h s = Some (t # ts)"
    with g1 obtain t1 ts1 where "latest_symbol_data h1 s = Some (t1 # ts1)" by blast
    with g2 show "\<exists>t' ts'. latest_symbol_data h' s = Some (t' # ts')" by blast
  qed
qed

lemma update_ticks_grow:
  assumes "update_ticks h = Inr h'"
  shows "(\<forall>s bl. latest_bars_data h s = Some bl \<longrightarrow> (\<exists>new. latest_bars_data h' s = Some (bl @ new)))
       \<and> (\<forall>s t ts. latest_symbol_data h s = Some (t # ts) \<longrightarrow> (\<exists>t' ts'. latest_symbol_data h' s = Some (t' # ts')))"
proof -
  from assms obtain h1 where l: "update_ticks_loop (symbol_list h) h = Inr h1"
    and h': "h' = h1\<lparr>events := events h1 @ [MarketEvent]\<rparr>"
    by (cases "update_ticks_loop (symbol_list h) h") (auto simp: update_ticks_def)
  from update_ticks_loop_grow [OF l] show ?thesis by (simp add: h')
qed

lemma window_ready_update_ticks:
  assumes "window_ready h st s" "update_ticks h = Inr h'"
  shows "window_ready h' st s"
proof -
  from assms(1) obtain bl t ts where
    c: "1 \<le> short_window st" "1 \<le> mid_window st" "1 \<le> long_window st" "0 < use_window st"
    and b: "latest_bars_data h s = Some bl" "use_window st \<le> int (length bl)"
    and l: "latest_symbol_data h s = Some (t # ts)"
    unfolding window_ready_def by blast
  from update_ticks_grow [OF assms(2)] b(1) l obtain new t' ts' where
    "latest_bars_data h' s = Some (bl @ new)" "latest_symbol_data h' s = Some (t' # ts')"
    by blast
  moreover from b(2) have "use_window st \<le> int (length (bl @ new))" by simp
  ultimately show ?thesis
    unfolding window_ready_def using c by blast
qed

lemma consistent_update_ticks:
  assumes "consistent h st" "update_ticks h = Inr h'"
  shows "consistent h' st"
  using assms(1) window_ready_update_ticks [OF _ assms(2)]
  unfolding consistent_def by blast

lemma consistent_init:
  assumes "BSStrategy_init bars sw mw lw a1 a2 a3 a4 a5 a6 = Inr st"
  shows "consistent bars st"
proof -
  have m: "\<And>s. calculate_initial_bought (symbol_list bars) s =
              (if s \<in> set (symbol_list bars) then Some OUT else None)"
    by (simp add: calculate_initial_bought_def map_of_const_keys)
  have o: "\<And>s. map_of (map (\<lambda>s. (s, (0::real, 0::real, 0::real))) (symbol_list bars)) s =
              (if s \<in> set (symbol_list bars) then Some (0, 0, 0) else None)"
    by (simp add: map_of_const_keys)
  from assms have st: "bought st = calculate_initial_bought (symbol_list bars)"
    "omm_price st = map_of (map (\<lambda>s. (s, (0, 0, 0))) (symbol_list bars))"
    "strat_symbol_list st = symbol_list bars"
    by (auto simp: BSStrategy_init_def)
  show ?thesis
    unfolding consistent_def st by (auto simp: m o split: if_splits)
qed


lemma slice_last_full_length:
  assumes "int (length (slice_last N xs)) = N" "slice_last N xs \<noteq> []"
  shows "0 < N \<and> N \<le> int (length xs)"
proof -
  from assms(2) have "0 < length (slice_last N xs)" by simp
  with assms(1) have p: "0 < N" by linarith
  with assms(1) have "int (length xs - (length xs - nat N)) = N"
    by (simp add: slice_last_def)
  with p show ?thesis by linarith
qed


lemma ewm_mean_last_span: "ewm_mean_last spn xs = Inr y \<Longrightarrow> 1 \<le> spn"
  by (auto simp: ewm_mean_last_def split: if_splits)


lemma reads_window_ready:
  assumes "get_latest_bars_values bars s COL_close (use_window st) = Inr bars_value"
    and "int (length bars_value) = use_window st" and "bars_value \<noteq> []"
    and "get_latest_tick_value bars s = Inr tick_price"
    and "ewm_mean_last (short_window st) bars_value = Inr se"
    and "ewm_mean_last (mid_window st) bars_value = Inr me"
    and "ewm_mean_last (long_window st) bars_value = Inr le"
  shows "window_ready bars st s"
proof -
  from assms(1) obtain bl where bl: "latest_bars_data bars s = Some bl"
    and bv: "bars_value = map (bar_column COL_close) (slice_last (use_window st) bl)"
    by (auto simp: get_latest_bars_values_def get_latest_bars_def split: option.splits)
  from assms(2,3) have "int (length (slice_last (use_window st) bl)) = use_window st"
    "slice_last (use_window st) bl \<noteq> []"
    by (simp_all add: bv)
  from slice_last_full_length [OF this] have w: "0 < use_window st" "use_window st \<le> int (length bl)"
    by simp_all
  from assms(4) obtain t ts where l: "latest_symbol_data bars s = Some (t # ts)"
    by (auto simp: get_latest_tick_value_def split: option.splits list.splits)
  from assms(5,6,7) have "1 \<le> short_window st" "1 \<le> mid_window st" "1 \<le> long_window st"
    by (auto dest: ewm_mean_last_span)
  with w bl l show ?thesis
    unfolding window_ready_def by blast
qed

lemma window_ready_cong:
  assumes "short_window st' = short_window st" "mid_window st' = mid_window st"
    "long_window st' = long_window st" "use_window st' = use_window st"
  shows "window_ready bars st' s = window_ready bars st s"
  by (simp add: window_ready_def assms)

lemma consistent_min_max:
  assumes "consistent bars st" "calculate_min_max_price st s p = Inr st1"
  shows "consistent bars st1"
proof -
  from calculate_min_max_price_cases [OF assms(2)] obtain po mx mn where
    o: "omm_price st s = Some (po, mx, mn)"
    and s1: "st1 = (if po \<noteq> 0 then st\<lparr>omm_price := (omm_price st)(s \<mapsto> (po, max mx p, min mn p))\<rparr> else st)"
    by blast
  show ?thesis
  proof (cases "po = 0")
    case True
    with s1 assms(1) show ?thesis by simp
  next
    case False
    with assms(1) o have n: "bought st s \<noteq> Some OUT"
      unfolding consistent_def by auto
    from False s1 have e: "st1 = st\<lparr>omm_price := (omm_price st)(s \<mapsto> (po, max mx p, min mn p))\<rparr>"
      by simp
    have w: "\<And>x. window_ready bars st1 x = window_ready bars st x"
      by (rule window_ready_cong) (simp_all add: e)
    from assms(1) n show ?thesis
      unfolding consistent_def w by (auto simp: e)
  qed
qed

lemma consistent_chain:
  assumes "consistent bars st1"
    and "signal_chain s lbp se me le hl he p omm (st1, q) = Inr (st', q')"
    and "window_ready bars st1 s"
  shows "consistent bars st'"
proof -
  have w: "\<And>v b x. window_ready bars (st1\<lparr>omm_price := v, bought := b\<rparr>) x = window_ready bars st1 x"
    "\<And>v b x. window_ready bars (st1\<lparr>bought := b, omm_price := v\<rparr>) x = window_ready bars st1 x"
    by (rule window_ready_cong; simp)+
  from signal_chain_cases [OF assms(2)] show ?thesis
  proof (elim disjE conjE)
    assume "st' = st1"
    with assms(1) show ?thesis by simp
  next
    assume "st' = st1\<lparr>omm_price := (omm_price st1)(s \<mapsto> (p, p, p)), bought := (bought st1)(s \<mapsto> LONG)\<rparr>"
    with assms(1,3) show ?thesis
      unfolding consistent_def by (auto simp: w)
  next
    assume "st' = st1\<lparr>bought := (bought st1)(s \<mapsto> SHORT), omm_price := (omm_price st1)(s \<mapsto> (p, p, p))\<rparr>"
    with assms(1,3) show ?thesis
      unfolding consistent_def by (auto simp: w)
  next
    assume "st' = st1\<lparr>omm_price := (omm_price st1)(s \<mapsto> (0, 0, 0)), bought := (bought st1)(s \<mapsto> OUT)\<rparr>"
      and "bought st1 s = Some LONG"
    with assms(1) show ?thesis
      unfolding consistent_def by (auto simp: w)
  next
    assume "st' = st1\<lparr>omm_price := (omm_price st1)(s \<mapsto> (0, 0, 0)), bought := (bought st1)(s \<mapsto> OUT)\<rparr>"
      and "bought st1 s = Some SHORT"
    with assms(1) show ?thesis
      unfolding consistent_def by (auto simp: w)
  qed
qed

lemma consistent_calculate_signals_symbol:
  assumes "consistent bars st"
    and "calculate_signals_symbol hour_et hour_ld bars s (st, q) = Inr (st', q')"
  shows "consistent bars st'"
proof -
  from calculate_signals_symbol_cases [OF assms(2)] obtain bars_value tick_date tick_price where
    r: "get_latest_bars_values bars s COL_close (use_window st) = Inr bars_value"
      "get_latest_tick_value bars s = Inr tick_price"
    and ss: "signal_step hour_et hour_ld s bars_value tick_date tick_price (st, q) = Inr (st', q')"
    by blast
  from signal_step_cases [OF ss] obtain st1 po mx mn where
    st1: "calculate_min_max_price st s tick_price = Inr st1"
    and d: "(st' = st1 \<and> q' = q)
          \<or> (int (length bars_value) = use_window st \<and> bars_value \<noteq> []
              \<and> (\<exists>se me le. ewm_mean_last (short_window st) bars_value = Inr se
                    \<and> ewm_mean_last (mid_window st) bars_value = Inr me
                    \<and> ewm_mean_last (long_window st) bars_value = Inr le
                    \<and> signal_chain s (last bars_value) se me le (hour_ld tick_date) (hour_et tick_date)
                          tick_price (po, mx, mn) (st1, q) = Inr (st', q')))"
    by blast
  note c1 = consistent_min_max [OF assms(1) st1]
  note fr = calculate_min_max_price_frame [OF st1]
  from d show ?thesis
  proof
    assume "st' = st1 \<and> q' = q"
    with c1 show ?thesis by simp
  next
    assume "int (length bars_value) = use_window st \<and> bars_value \<noteq> []
              \<and> (\<exists>se me le. ewm_mean_last (short_window st) bars_value = Inr se
                    \<and> ewm_mean_last (mid_window st) bars_value = Inr me
                    \<and> ewm_mean_last (long_window st) bars_value = Inr le
                    \<and> signal_chain s (last bars_value) se me le (hour_ld tick_date) (hour_et tick_date)
                          tick_price (po, mx, mn) (st1, q) = Inr (st', q'))"
    then obtain se me le where
      f: "int (length bars_value) = use_window st" "bars_value \<noteq> []"
      and e: "ewm_mean_last (short_window st) bars_value = Inr se"
        "ewm_mean_last (mid_window st) bars_value = Inr me"
        "ewm_mean_last (long_window st) bars_value = Inr le"
      and ch: "signal_chain s (last bars_value) se me le (hour_ld tick_date) (hour_et tick_date)
                          tick_price (po, mx, mn) (st1, q) = Inr (st', q')"
      by blast
    from reads_window_ready [OF r(1) f r(2) e] have "window_ready bars st s" .
    then have "window_ready bars st1 s"
      by (simp add: window_ready_cong [of st1 st] fr)
    from consistent_chain [OF c1 ch this] show ?thesis .
  qed
qed

lemma consistent_calculate_signals_loop:
  assumes "consistent bars (fst stq)"
    and "calculate_signals_loop hour_et hour_ld bars ss stq = Inr stq'"
  shows "consistent bars (fst stq')"
  using assms
proof (induction ss arbitrary: stq)
  case Nil
  then show ?case by simp
next
  case (Cons a ss)
  from Cons.prems(2) obtain stq1 where
    1: "calculate_signals_symbol hour_et hour_ld bars a stq = Inr stq1"
    and 2: "calculate_signals_loop hour_et hour_ld bars ss stq1 = Inr stq'"
    by (cases "calculate_signals_symbol hour_et hour_ld bars a stq") auto
  obtain st q where stq: "stq = (st, q)" by (cases stq)
  obtain st1 q1 where stq1: "stq1 = (st1, q1)" by (cases stq1)
  from consistent_calculate_signals_symbol [of bars st hour_et hour_ld a q st1 q1] Cons.prems(1) 1
  have "consistent bars (fst stq1)" by (simp add: stq stq1)
  from Cons.IH [OF this 2] show ?case .
qed

lemma consistent_calculate_signals:
  assumes "consistent bars st"
    and "calculate_signals hour_et hour_ld bars ev (st, q) = Inr (st', q')"
  shows "consistent bars st'"
proof (cases ev)
  case MarketEvent
  with assms(2) have "calculate_signals_loop hour_et hour_ld bars (strat_symbol_list st) (st, q) = Inr (st', q')"
    by (simp add: calculate_signals_def)
  from consistent_calculate_signals_loop [OF _ this] assms(1) show ?thesis by simp
next
  case (SignalEvent x1 x2 x3 x4)
  with assms show ?thesis by (simp add: calculate_signals_def)
qed


lemma no_tick_IndexError:
  assumes "latest_symbol_data bars s = Some []" and "latest_bars_data bars s = Some bl"
  shows "calculate_signals_symbol hour_et hour_ld bars s (st, q) = Inl IndexError"
  using assms
  by (simp add: calculate_signals_symbol_def get_latest_bars_values_def get_latest_bars_def
      get_latest_tick_datetime_def)





text \<open>
  Claim C6, as stated, fails: the constructor checks nothing. With \<open>short_window = 21\<close>
  and \<open>mid_window = 10\<close> it returns a strategy, and a signal step on a market event then
  runs and returns.
\<close>

theorem construction_accepts_any_spans:
  "\<exists>st. BSStrategy_init (scenario_handler 1609750800000000000 1.0005) 21 10 50 1 0 0 5 10 5 = Inr st
      \<and> short_window st = 21 \<and> mid_window st = 10 \<and> short_window st \<ge> mid_window st
      \<and> calculate_signals hour_utc_minus_5 hour_utc
           (scenario_handler 1609750800000000000 1.0005) MarketEvent (st, []) = Inr (st, [])"
proof -
  let ?h = "scenario_handler 1609750800000000000 1.0005"
  obtain st where st: "BSStrategy_init ?h 21 10 50 1 0 0 5 10 5 = Inr st"
    by (simp add: BSStrategy_init_def)
  then have f: "use_window st = 200" "strat_symbol_list st = [''EURUSD'']"
    "short_window st = 21" "mid_window st = 10"
    by (auto simp: BSStrategy_init_def scenario_handler_def)
  have 1: "consistent ?h st" using st by (rule consistent_init)
  have 2: "''EURUSD'' \<in> set (strat_symbol_list st)" by (simp add: f)
  have 3: "get_latest_bars_values ?h ''EURUSD'' COL_close (use_window st) = Inr scenario_closes"
    by (simp add: f get_latest_bars_values_def get_latest_bars_def slice_last_def scenario_handler_def
        scenario_closes_def comp_def)
  have 4: "int (length scenario_closes) \<noteq> use_window st"
    by (simp add: f scenario_emas)
  have 5: "latest_symbol_data ?h ''EURUSD'' =
             Some (\<lparr>tick_datetime = 1609750800000000000, tick_value = 1.0005\<rparr> # [])"
    by (simp add: scenario_handler_def)
  have td: "get_latest_tick_datetime ?h ''EURUSD'' = Inr 1609750800000000000"
    by (rule scenario_values)
  have tv: "get_latest_tick_value ?h ''EURUSD'' = Inr 1.0005"
    by (rule scenario_values)
  have mm: "calculate_min_max_price st ''EURUSD'' 1.0005 = Inr st"
    using st by (auto simp: calculate_min_max_price_def BSStrategy_init_def scenario_handler_def)
  have "calculate_signals_symbol hour_utc_minus_5 hour_utc ?h ''EURUSD'' (st, []) = Inr (st, [])"
    by (rule calculate_signals_symbol_short [OF 3 td tv mm 4])
  then have "calculate_signals hour_utc_minus_5 hour_utc ?h MarketEvent (st, []) = Inr (st, [])"
    by (simp add: calculate_signals_def f)
  with st f show ?thesis by simp
qed

text \<open>
  Claim C6, amended. For every configuration, whatever the order of the three spans,
  the constructor returns a strategy and raises nothing: it stores the spans as given,
  sets \<open>use_window = 4 \<times> long_window\<close>, takes the symbols of the handler and starts every
  one of them in the phase OUT.
\<close>

theorem BSStrategy_init_total:
  "\<exists>st. BSStrategy_init bars short_w mid_w long_w a1 a2 a3 a4 a5 a6 = Inr st
      \<and> short_window st = short_w \<and> mid_window st = mid_w \<and> long_window st = long_w
      \<and> use_window st = 4 * long_w
      \<and> strat_symbol_list st = symbol_list bars
      \<and> bought st = calculate_initial_bought (symbol_list bars)"
  by (simp add: BSStrategy_init_def)









end
